theory Spec2Isabelle
  imports Complex_Main "HOL-Library.Word" "HOL-Library.Sublist"
begin

section \<open>The playout engine of \<open>src/index.tsx\<close> (class \<open>PromptDjApp\<close>)\<close>

text \<open>
  The model follows the audio part of the class \<open>PromptDjApp\<close>: its fields become a
  record, each method a function from the state (and the values it reads from the
  browser: the device clock \<open>audioContext.currentTime\<close>, the gain node's current
  value, the pointer position) to the new state.

  JavaScript numbers that hold seconds are modelled as \<open>real\<close>: the model adds,
  subtracts and compares them exactly, where the program rounds every sum and difference
  to binary64. A number the program has stored is the same number wherever it is read
  again, so a statement that a unit starts at the \<open>nextStartTime\<close> stored before it
  reads its sums as the program's own. A statement that needs a computed sum to be equal
  to another value (a seek to exactly a cumulative end) is made for values on a dyadic
  grid (\<open>onGrid\<close> below), where binary64 addition and subtraction are exact. The
  durations, clock readings and seek times of the examples (0, 1/4, 1/2, 1, 2, ...) are
  binary fractions of this kind. Byte arrays (\<open>Uint8Array\<close>) are lists of 8-bit
  words.

  Effects on the browser that no field records are left out: \<open>requestUpdate\<close>,
  \<open>audioContext.resume\<close>, \<open>source.connect\<close>, \<open>source.stop\<close>, \<open>visualize\<close>, and
  the \<open>requestAnimationFrame\<close>/\<open>cancelAnimationFrame\<close> bookkeeping, which only
  decides when \<open>updateProgress\<close> runs next: below \<open>updateProgress\<close> may run at any
  moment, which covers every frame the browser can deliver.
\<close>

subsection \<open>Data\<close>

datatype PlaybackState = Stopped | Playing | Loading | Paused

type_synonym byte = "8 word"

type_synonym chunk = "byte list"

text \<open>
  A Web Audio \<open>AudioBuffer\<close>. The program reads only \<open>duration\<close>; \<open>pcm\<close> stands for
  the sample data the buffer holds, so that buffers decoded from different chunks are
  different values.
\<close>

record AudioBuffer =
  duration :: real
  pcm :: "byte list"

text \<open>
  An \<open>AudioBufferSourceNode\<close> after \<open>source.start(when, offset)\<close>: the buffer it
  plays, the device time it starts at, and the offset into the buffer.
\<close>

record source =
  src_buffer :: AudioBuffer
  src_when :: real
  src_offset :: real

text \<open>Commands sent to the remote session, and automation events of \<open>outputNode.gain\<close>.\<close>

datatype session_cmd = SessionPlay | SessionPause | SessionStop

datatype gain_event = SetValueAtTime real real | LinearRampToValueAtTime real real

text \<open>
  The fields of \<open>PromptDjApp\<close> the audio methods use. \<open>session\<close> is \<open>None\<close> for
  \<open>undefined\<close>, and otherwise holds the commands sent to the session so far.
\<close>

record PromptDjApp =
  playbackState :: PlaybackState
  totalDuration :: real
  currentPlaybackTime :: real
  activeSources :: "source list"
  decodedAudioBuffers :: "AudioBuffer list"
  isSeeking :: bool
  streamStartTime :: real
  session :: "session_cmd list option"
  receivedAudioChunks :: "chunk list"
  nextStartTime :: real
  gainEvents :: "gain_event list"

definition bufferTime :: real where
  "bufferTime = 1"

definition initial :: PromptDjApp where
  "initial = \<lparr>playbackState = Stopped, totalDuration = 0, currentPlaybackTime = 0,
     activeSources = [], decodedAudioBuffers = [], isSeeking = False, streamStartTime = 0,
     session = None, receivedAudioChunks = [], nextStartTime = 0, gainEvents = []\<rparr>"

subsection \<open>Progress, chunk arrival and decode completion\<close>

text \<open>\<open>updateProgress\<close> (lines 624-634), run at device time \<open>now\<close>.\<close>

definition updateProgress :: "PromptDjApp \<Rightarrow> real \<Rightarrow> PromptDjApp" where
  "updateProgress s now =
     (if isSeeking s then s
      else if playbackState s \<noteq> Playing \<and> playbackState s \<noteq> Loading then s
      else s\<lparr>currentPlaybackTime := max 0 (min (now - streamStartTime s) (totalDuration s))\<rparr>)"

text \<open>
  \<open>handleServerMessage\<close> (lines 486-491), the part that runs when the message
  arrives: \<open>None\<close> is a message without audio data, \<open>Some c\<close> one whose first audio
  chunk decodes (base64) to the bytes \<open>c\<close>. The decode of \<open>c\<close> is started here and
  completes later.
\<close>

definition handleServerMessage :: "PromptDjApp \<Rightarrow> chunk option \<Rightarrow> PromptDjApp" where
  "handleServerMessage s msg =
     (case msg of
        None \<Rightarrow> s
      | Some decoded \<Rightarrow> s\<lparr>receivedAudioChunks := receivedAudioChunks s @ [decoded]\<rparr>)"

text \<open>
  The callback of \<open>decodeAudioData(...).then\<close> (lines 492-522), run at device time
  \<open>now\<close> with the decoded buffer. The source node is pushed on \<open>activeSources\<close> before
  it is started; the model appends it with the start time it is then given.
\<close>

definition onDecoded :: "PromptDjApp \<Rightarrow> AudioBuffer \<Rightarrow> real \<Rightarrow> PromptDjApp" where
  "onDecoded s audioBuffer now =
     (let s1 = s\<lparr>decodedAudioBuffers := decodedAudioBuffers s @ [audioBuffer]\<rparr> in
      if playbackState s1 = Paused \<or> playbackState s1 = Stopped then s1
      else
        let s2 = s1\<lparr>totalDuration := totalDuration s1 + duration audioBuffer\<rparr>;
            s3 = (if nextStartTime s2 = 0
                  then updateProgress
                         (s2\<lparr>nextStartTime := now + bufferTime,
                             streamStartTime := now + bufferTime\<rparr>) now
                  else s2);
            s4 = (if playbackState s3 = Loading then s3\<lparr>playbackState := Playing\<rparr> else s3);
            s5 = (if nextStartTime s4 < now then s4\<lparr>nextStartTime := now\<rparr> else s4);
            s6 = s5\<lparr>activeSources := activeSources s5 @
                   [\<lparr>src_buffer = audioBuffer, src_when = nextStartTime s5, src_offset = 0\<rparr>]\<rparr>
        in s6\<lparr>nextStartTime := nextStartTime s6 + duration audioBuffer\<rparr>)"

text \<open>
  \<open>source.onended\<close> (lines 501-503, 876): the node at position \<open>i\<close> of
  \<open>activeSources\<close> has finished and is filtered out by identity.
\<close>

definition onended :: "PromptDjApp \<Rightarrow> nat \<Rightarrow> PromptDjApp" where
  "onended s i = s\<lparr>activeSources := take i (activeSources s) @ drop (Suc i) (activeSources s)\<rparr>"

subsection \<open>Transport: load, pause, stop, connect\<close>

definition sendCmd :: "session_cmd \<Rightarrow> session_cmd list option \<Rightarrow> session_cmd list option" where
  "sendCmd c ses = map_option (\<lambda>sent. sent @ [c]) ses"

text \<open>\<open>loadAudio\<close> (lines 581-589).\<close>

definition loadAudio :: "PromptDjApp \<Rightarrow> real \<Rightarrow> PromptDjApp" where
  "loadAudio s now =
     (if session s = None then s
      else
        let s1 = updateProgress s now;
            s2 = s1\<lparr>session := sendCmd SessionPlay (session s1)\<rparr>;
            s3 = s2\<lparr>playbackState := (if playbackState s2 = Paused then Playing else Loading)\<rparr>
        in s3\<lparr>gainEvents := gainEvents s3 @
                [SetValueAtTime 0 now, LinearRampToValueAtTime 1 (now + 1 / 10)]\<rparr>)"

text \<open>\<open>clearAllSources\<close> (lines 591-594).\<close>

definition clearAllSources :: "PromptDjApp \<Rightarrow> PromptDjApp" where
  "clearAllSources s = s\<lparr>activeSources := []\<rparr>"

text \<open>\<open>pauseAudio\<close> (lines 596-604); \<open>g\<close> is \<open>outputNode.gain.value\<close> as read at \<open>now\<close>.\<close>

definition pauseAudio :: "PromptDjApp \<Rightarrow> real \<Rightarrow> real \<Rightarrow> PromptDjApp" where
  "pauseAudio s now g =
     (if session s = None then s
      else
        let s1 = s\<lparr>session := sendCmd SessionPause (session s)\<rparr>;
            s2 = s1\<lparr>playbackState := Paused\<rparr>;
            s3 = s2\<lparr>gainEvents := gainEvents s2 @
                   [SetValueAtTime g now, LinearRampToValueAtTime 0 (now + 1 / 10)]\<rparr>
        in clearAllSources s3)"

text \<open>\<open>stopAudio\<close> (lines 606-620), also \<open>handleReset\<close> and the session's \<open>onerror\<close>.\<close>

definition stopAudio :: "PromptDjApp \<Rightarrow> PromptDjApp" where
  "stopAudio s =
     (let s1 = (if session s \<noteq> None
                then (s\<lparr>session := sendCmd SessionStop (session s)\<rparr>)\<lparr>session := None\<rparr>
                else s);
          s2 = clearAllSources s1
      in s2\<lparr>playbackState := Stopped, nextStartTime := 0, totalDuration := 0,
             currentPlaybackTime := 0, streamStartTime := 0,
             receivedAudioChunks := [], decodedAudioBuffers := []\<rparr>)"

text \<open>
  \<open>connectToSession\<close> (lines 467-484) in its three moments: the call, the connection
  made (the new session has been sent nothing yet), and the connection refused.
\<close>

definition connectStart :: "PromptDjApp \<Rightarrow> PromptDjApp" where
  "connectStart s = s\<lparr>playbackState := Loading\<rparr>"

definition connectDone :: "PromptDjApp \<Rightarrow> real \<Rightarrow> PromptDjApp" where
  "connectDone s now = loadAudio (s\<lparr>session := Some []\<rparr>) now"

definition connectFailed :: "PromptDjApp \<Rightarrow> PromptDjApp" where
  "connectFailed s = s\<lparr>playbackState := Stopped\<rparr>"

text \<open>\<open>handlePlayPause\<close> (lines 569-579), up to the first \<open>await\<close>.\<close>

definition handlePlayPause :: "PromptDjApp \<Rightarrow> real \<Rightarrow> real \<Rightarrow> PromptDjApp" where
  "handlePlayPause s now g =
     (if playbackState s = Playing \<or> playbackState s = Loading then pauseAudio s now g
      else if session s = None then connectStart s
      else loadAudio s now)"

subsection \<open>Seeking\<close>

text \<open>\<open>scheduleBuffer\<close> (lines 870-878).\<close>

definition scheduleBuffer :: "PromptDjApp \<Rightarrow> AudioBuffer \<Rightarrow> real \<Rightarrow> real \<Rightarrow> PromptDjApp" where
  "scheduleBuffer s buf startT off =
     (let s1 = s\<lparr>activeSources := activeSources s @
                  [\<lparr>src_buffer = buf, src_when = startT, src_offset = off\<rparr>]\<rparr>
      in s1\<lparr>nextStartTime := startT + (duration buf - off)\<rparr>)"

text \<open>
  The loop of \<open>seekToTime\<close> (lines 850-862) over the buffers still to visit, with the
  loop variables \<open>accumulatedDuration\<close> and \<open>hasScheduled\<close>. The sum
  \<open>bufferEnd\<close> and the difference \<open>offset\<close> are exact here and rounded to binary64
  in the program: which buffer a seek time falls in, and the offset into it, agree with
  the program when these sums are exact, as they are on a dyadic grid (\<open>onGrid\<close>).
\<close>

fun seekLoop :: "real \<Rightarrow> AudioBuffer list \<Rightarrow> real \<Rightarrow> bool \<Rightarrow> PromptDjApp \<Rightarrow> PromptDjApp" where
  "seekLoop seekTime [] accumulatedDuration hasScheduled s = s"
| "seekLoop seekTime (buf # bufs) accumulatedDuration hasScheduled s =
     (let bufferEnd = accumulatedDuration + duration buf in
      if \<not> hasScheduled \<and> bufferEnd \<ge> seekTime
      then seekLoop seekTime bufs bufferEnd True
             (scheduleBuffer s buf (nextStartTime s) (seekTime - accumulatedDuration))
      else if hasScheduled
      then seekLoop seekTime bufs bufferEnd hasScheduled
             (scheduleBuffer s buf (nextStartTime s) 0)
      else seekLoop seekTime bufs bufferEnd hasScheduled s)"

text \<open>\<open>seekToTime\<close> (lines 844-868).\<close>

definition seekToTime :: "PromptDjApp \<Rightarrow> real \<Rightarrow> real \<Rightarrow> PromptDjApp" where
  "seekToTime s seekTime now =
     (let s1 = clearAllSources s;
          s2 = s1\<lparr>currentPlaybackTime := seekTime, streamStartTime := now - seekTime,
                  nextStartTime := now\<rparr>;
          s3 = seekLoop seekTime (decodedAudioBuffers s2) 0 False s2
      in if playbackState s3 = Paused
         then s3\<lparr>playbackState := Playing, session := sendCmd SessionPlay (session s3)\<rparr>
         else s3)"

text \<open>
  \<open>seekRatio\<close> as the seek handlers compute it from the pointer position: \<open>x\<close> is
  \<open>(clientX - rect.left) / rect.width\<close>.
\<close>

definition seekRatio :: "real \<Rightarrow> real" where
  "seekRatio x = max 0 (min 1 x)"

text \<open>
  \<open>handleSeek\<close> (lines 880-888) for a click on the bar (not on the handle), and the
  three handlers of a drag of the handle (lines 920-948). The move and up listeners are
  registered exactly while \<open>isSeeking\<close> is set.
\<close>

definition handleSeek :: "PromptDjApp \<Rightarrow> real \<Rightarrow> real \<Rightarrow> PromptDjApp" where
  "handleSeek s x now =
     (if playbackState s = Stopped \<or> totalDuration s = 0 then s
      else seekToTime s (totalDuration s * seekRatio x) now)"

definition handleSeekPointerDown :: "PromptDjApp \<Rightarrow> PromptDjApp" where
  "handleSeekPointerDown s =
     (if playbackState s = Stopped \<or> totalDuration s = 0 then s
      else s\<lparr>isSeeking := True\<rparr>)"

definition onPointerMove :: "PromptDjApp \<Rightarrow> real \<Rightarrow> PromptDjApp" where
  "onPointerMove s x =
     (if isSeeking s then s\<lparr>currentPlaybackTime := totalDuration s * seekRatio x\<rparr> else s)"

definition onPointerUp :: "PromptDjApp \<Rightarrow> real \<Rightarrow> real \<Rightarrow> PromptDjApp" where
  "onPointerUp s x now =
     (if isSeeking s
      then let s1 = s\<lparr>isSeeking := False\<rparr>
           in seekToTime s1 (totalDuration s1 * seekRatio x) now
      else s)"

subsection \<open>The program as a transition system\<close>

text \<open>
  Everything that can happen to the audio state: one event per handler or callback,
  carrying what the handler reads from the browser.
\<close>

datatype event =
    ServerMessage "chunk option"
  | Decoded AudioBuffer real
  | Ended nat
  | PlayPause real real
  | ConnectDone real
  | ConnectFailed
  | Reset
  | Frame real
  | SeekClick real real
  | PointerDown
  | PointerMove real
  | PointerUp real real

fun step :: "PromptDjApp \<Rightarrow> event \<Rightarrow> PromptDjApp" where
  "step s (ServerMessage msg) = handleServerMessage s msg"
| "step s (Decoded audioBuffer now) = onDecoded s audioBuffer now"
| "step s (Ended i) = onended s i"
| "step s (PlayPause now g) = handlePlayPause s now g"
| "step s (ConnectDone now) = connectDone s now"
| "step s ConnectFailed = connectFailed s"
| "step s Reset = stopAudio s"
| "step s (Frame now) = updateProgress s now"
| "step s (SeekClick x now) = handleSeek s x now"
| "step s PointerDown = handleSeekPointerDown s"
| "step s (PointerMove x) = onPointerMove s x"
| "step s (PointerUp x now) = onPointerUp s x now"

definition run :: "PromptDjApp \<Rightarrow> event list \<Rightarrow> PromptDjApp" where
  "run s evs = foldl step s evs"

subsection \<open>WAV export\<close>

text \<open>
  \<open>DataView\<close> and \<open>Uint8Array\<close> writes fail with a \<open>RangeError\<close> when they do not
  fit the array; the model keeps that branch. A \<open>setUint\<close> call stores its value
  modulo the width of the field. The values written are non-negative integers, modelled
  as \<open>nat\<close>. The model puts no bound on the length of a typed array (engines differ
  in the largest array they allocate).
\<close>

datatype error = RangeError

definition andThen :: "error + 'a \<Rightarrow> ('a \<Rightarrow> error + 'b) \<Rightarrow> error + 'b" where
  "andThen r f = (case r of Inl e \<Rightarrow> Inl e | Inr x \<Rightarrow> f x)"

text \<open>\<open>view.setUint8\<close>, and \<open>view.setUint16\<close> and \<open>view.setUint32\<close> with \<open>littleEndian = true\<close>.\<close>

definition setUint8 :: "byte list \<Rightarrow> nat \<Rightarrow> nat \<Rightarrow> error + byte list" where
  "setUint8 view byteOffset v =
     (if byteOffset + 1 > length view then Inl RangeError
      else Inr (view[byteOffset := of_nat (v mod 256)]))"

definition setUint16 :: "byte list \<Rightarrow> nat \<Rightarrow> nat \<Rightarrow> error + byte list" where
  "setUint16 view byteOffset v =
     (if byteOffset + 2 > length view then Inl RangeError
      else let w = v mod 2 ^ 16 in
        Inr (view[byteOffset := of_nat (w mod 256),
                  byteOffset + 1 := of_nat (w div 256)]))"

definition setUint32 :: "byte list \<Rightarrow> nat \<Rightarrow> nat \<Rightarrow> error + byte list" where
  "setUint32 view byteOffset v =
     (if byteOffset + 4 > length view then Inl RangeError
      else let w = v mod 2 ^ 32 in
        Inr (view[byteOffset := of_nat (w mod 256),
                  byteOffset + 1 := of_nat (w div 256 mod 256),
                  byteOffset + 2 := of_nat (w div 65536 mod 256),
                  byteOffset + 3 := of_nat (w div 16777216)]))"

text \<open>The local function \<open>writeString\<close> of \<open>writeWavHeader\<close> (lines 652-654).\<close>

fun writeString :: "byte list \<Rightarrow> nat \<Rightarrow> string \<Rightarrow> error + byte list" where
  "writeString view offset [] = Inr view"
| "writeString view offset (c # str) =
     andThen (setUint8 view offset (of_char c)) (\<lambda>view'. writeString view' (offset + 1) str)"

text \<open>
  \<open>writeWavHeader\<close> (lines 649-669). \<open>bitsPerSample / 8\<close> is a division of
  doubles, and the setter truncates the product it is given: on non-negative integers
  that is the integer quotient of the whole product by 8.
\<close>

definition writeWavHeader :: "nat \<Rightarrow> nat \<Rightarrow> nat \<Rightarrow> nat \<Rightarrow> error + byte list" where
  "writeWavHeader dataLength sampleRate numChannels bitsPerSample =
     andThen (writeString (replicate 44 0) 0 ''RIFF'') (\<lambda>v.
     andThen (setUint32 v 4 (36 + dataLength)) (\<lambda>v.
     andThen (writeString v 8 ''WAVE'') (\<lambda>v.
     andThen (writeString v 12 ''fmt '') (\<lambda>v.
     andThen (setUint32 v 16 16) (\<lambda>v.
     andThen (setUint16 v 20 1) (\<lambda>v.
     andThen (setUint16 v 22 numChannels) (\<lambda>v.
     andThen (setUint32 v 24 sampleRate) (\<lambda>v.
     andThen (setUint32 v 28 (sampleRate * numChannels * bitsPerSample div 8)) (\<lambda>v.
     andThen (setUint16 v 32 (numChannels * bitsPerSample div 8)) (\<lambda>v.
     andThen (setUint16 v 34 bitsPerSample) (\<lambda>v.
     andThen (writeString v 36 ''data'') (\<lambda>v.
     setUint32 v 40 dataLength))))))))))))"

text \<open>\<open>target.set(src, offset)\<close> on a \<open>Uint8Array\<close>.\<close>

definition typedArraySet :: "byte list \<Rightarrow> byte list \<Rightarrow> nat \<Rightarrow> error + byte list" where
  "typedArraySet target src offset =
     (if offset + length src > length target then Inl RangeError
      else Inr (take offset target @ src @ drop (offset + length src) target))"

text \<open>
  The \<open>forEach\<close> loop of \<open>handleDownloadWav\<close> (lines 675-679) with its variable
  \<open>offset\<close>.
\<close>

fun copyChunks :: "chunk list \<Rightarrow> byte list \<Rightarrow> nat \<Rightarrow> error + byte list" where
  "copyChunks [] concatenatedData offset = Inr concatenatedData"
| "copyChunks (chunk # rest) concatenatedData offset =
     andThen (typedArraySet concatenatedData chunk offset)
       (\<lambda>d. copyChunks rest d (offset + length chunk))"

text \<open>\<open>audioContext.sampleRate\<close>: the context is created with \<open>sampleRate: 48000\<close> (line 438).\<close>

definition audioContextSampleRate :: nat where
  "audioContextSampleRate = 48000"

text \<open>
  \<open>handleDownloadWav\<close> (lines 671-693), up to the bytes handed to the \<open>Blob\<close>:
  \<open>None\<close> when the handler returns without a download.
\<close>

definition handleDownloadWav :: "PromptDjApp \<Rightarrow> (error + byte list) option" where
  "handleDownloadWav s =
     (if length (receivedAudioChunks s) = 0 then None
      else
        let totalLength = foldl (\<lambda>acc chunk. acc + length chunk) 0 (receivedAudioChunks s) in
        Some (andThen (copyChunks (receivedAudioChunks s) (replicate totalLength 0) 0)
               (\<lambda>concatenatedData.
              andThen (writeWavHeader totalLength audioContextSampleRate 2 16) (\<lambda>header.
              andThen (typedArraySet (replicate (length header + totalLength) 0) header 0)
                (\<lambda>wavData. typedArraySet wavData concatenatedData (length header))))))"


subsection \<open>Notions used to state the properties\<close>

text \<open>
  Buffers scheduled back to back from device time \<open>t\<close>, each from its beginning: every
  unit starts when the one before it ends.
\<close>

fun backToBack :: "real \<Rightarrow> AudioBuffer list \<Rightarrow> source list" where
  "backToBack t [] = []"
| "backToBack t (b # bs) =
     \<lparr>src_buffer = b, src_when = t, src_offset = 0\<rparr> # backToBack (t + duration b) bs"

text \<open>
  The device time at which a scheduled unit ends: its start plus the part of its buffer
  it plays.
\<close>

definition unitEnd :: "source \<Rightarrow> real" where
  "unitEnd u = src_when u + (duration (src_buffer u) - src_offset u)"

text \<open>
  Units that abut from device time \<open>t\<close>: the first starts at \<open>t\<close>, every other one
  where the one before it ends; and the time at which the last of them ends (\<open>t\<close> when
  there is none).
\<close>

fun abutting :: "real \<Rightarrow> source list \<Rightarrow> bool" where
  "abutting t [] = True"
| "abutting t (u # us) = (src_when u = t \<and> abutting (unitEnd u) us)"

fun endOf :: "real \<Rightarrow> source list \<Rightarrow> real" where
  "endOf t [] = t"
| "endOf t (u # us) = endOf (unitEnd u) us"

text \<open>
  The units that the decode callbacks of a run append to \<open>activeSources\<close>, in order,
  each with the device time at which its callback ran.
\<close>

fun decodeLog :: "PromptDjApp \<Rightarrow> event list \<Rightarrow> (source \<times> real) list" where
  "decodeLog s [] = []"
| "decodeLog s (Decoded b now # evs) =
     map (\<lambda>u. (u, now)) (drop (length (activeSources s)) (activeSources (onDecoded s b now))) @
     decodeLog (onDecoded s b now) evs"
| "decodeLog s (e # evs) = decodeLog (step s e) evs"

text \<open>
  The scheduling rule for such a log, from the pending start time \<open>nst\<close> (0 for
  unset): a unit plays its buffer from offset 0 and starts at \<open>nst\<close>, or at \<open>now\<close>
  when the clock has passed \<open>nst\<close>, or at \<open>now + 1\<close> when \<open>nst\<close> is unset; the
  next unit follows from the end of this one. \<open>pendingAfter\<close> is the pending start
  time after the log.
\<close>

fun follows :: "real \<Rightarrow> (source \<times> real) list \<Rightarrow> bool" where
  "follows nst [] = True"
| "follows nst ((u, now) # rest) =
     (src_offset u = 0 \<and>
      src_when u = (if nst = 0 then now + 1 else if nst < now then now else nst) \<and>
      follows (unitEnd u) rest)"

fun pendingAfter :: "real \<Rightarrow> (source \<times> real) list \<Rightarrow> real" where
  "pendingAfter nst [] = nst"
| "pendingAfter nst ((u, now) # rest) = pendingAfter (unitEnd u) rest"


text \<open>The events that end in a call of \<open>seekToTime\<close>.\<close>

fun isSeekEvent :: "event \<Rightarrow> bool" where
  "isSeekEvent (SeekClick x now) = True"
| "isSeekEvent (PointerUp x now) = True"
| "isSeekEvent e = False"


text \<open>
  Reading a file back: little-endian unsigned integers at a byte offset, and the bytes
  of an ASCII string.
\<close>

definition getUint16 :: "byte list \<Rightarrow> nat \<Rightarrow> nat" where
  "getUint16 bytes offset = unat (bytes ! offset) + 256 * unat (bytes ! (offset + 1))"

definition getUint32 :: "byte list \<Rightarrow> nat \<Rightarrow> nat" where
  "getUint32 bytes offset =
     unat (bytes ! offset) + 256 * unat (bytes ! (offset + 1)) +
     65536 * unat (bytes ! (offset + 2)) + 16777216 * unat (bytes ! (offset + 3))"

definition asciiBytes :: "string \<Rightarrow> byte list" where
  "asciiBytes str = map (\<lambda>c. of_nat (of_char c)) str"

text \<open>
  The 44 bytes of the header for a payload of \<open>n\<close> bytes at 48000 Hz, two channels
  and 16 bits, written out (\<open>writeWavHeader\<close> is proved to produce them).
\<close>

definition wavHeaderBytes :: "nat \<Rightarrow> byte list" where
  "wavHeaderBytes n =
     [82, 73, 70, 70,
      of_nat ((36 + n) mod 2 ^ 32 mod 256), of_nat ((36 + n) mod 2 ^ 32 div 256 mod 256),
      of_nat ((36 + n) mod 2 ^ 32 div 65536 mod 256), of_nat ((36 + n) mod 2 ^ 32 div 16777216),
      87, 65, 86, 69,
      102, 109, 116, 32,
      16, 0, 0, 0,
      1, 0,
      2, 0,
      128, 187, 0, 0,
      0, 238, 2, 0,
      4, 0,
      16, 0,
      100, 97, 116, 97,
      of_nat (n mod 2 ^ 32 mod 256), of_nat (n mod 2 ^ 32 div 256 mod 256),
      of_nat (n mod 2 ^ 32 div 65536 mod 256), of_nat (n mod 2 ^ 32 div 16777216)]"

text \<open>
  The sum of the durations of the buffers on the timeline, and the runs in which every
  decode completes while the engine is playing or loading.
\<close>

definition timelineDuration :: "PromptDjApp \<Rightarrow> real" where
  "timelineDuration s = sum_list (map duration (decodedAudioBuffers s))"

fun decodesWhileLive :: "PromptDjApp \<Rightarrow> event list \<Rightarrow> bool" where
  "decodesWhileLive s [] = True"
| "decodesWhileLive s (e # evs) =
     ((case e of
         Decoded b now \<Rightarrow> playbackState s = Playing \<or> playbackState s = Loading
       | _ \<Rightarrow> True) \<and>
      decodesWhileLive (step s e) evs)"

text \<open>The chunks that arrive in a run, and the buffers whose decode completes in it, in order.\<close>

fun arrivedChunks :: "event list \<Rightarrow> chunk list" where
  "arrivedChunks [] = []"
| "arrivedChunks (ServerMessage (Some c) # evs) = c # arrivedChunks evs"
| "arrivedChunks (e # evs) = arrivedChunks evs"

fun completedDecodes :: "event list \<Rightarrow> AudioBuffer list" where
  "completedDecodes [] = []"
| "completedDecodes (Decoded b now # evs) = b # completedDecodes evs"
| "completedDecodes (e # evs) = completedDecodes evs"

text \<open>
  Modelled from the spec: \<open>decodeAudioData\<close> of \<open>utils\<close>, which is not among the
  sources. The specification's Decoder turns one raw chunk into a buffer whose duration
  is the number of samples per channel divided by the sample rate; the chunks hold
  16-bit samples. It is used below only to name the buffers of concrete chunks.
\<close>

definition decodeAudioData :: "chunk \<Rightarrow> nat \<Rightarrow> nat \<Rightarrow> AudioBuffer" where
  "decodeAudioData data sampleRate numChannels =
     \<lparr>duration = real (length data div 2 div numChannels) / real sampleRate, pcm = data\<rparr>"


subsection \<open>A session used as the running example\<close>

text \<open>
  The user presses play, the connection is made, and three chunks arrive and are decoded
  while the engine plays: buffers of 1 s, 1 s and 0.5 s (the scenario of the
  specification's section 8).
\<close>

definition chunk1 :: chunk where "chunk1 = [1, 0, 1, 0]"

definition chunk2 :: chunk where "chunk2 = [2, 0, 2, 0]"

definition chunk3 :: chunk where "chunk3 = [3, 0, 3, 0]"

definition buffer1 :: AudioBuffer where "buffer1 = \<lparr>duration = 1, pcm = chunk1\<rparr>"

definition buffer2 :: AudioBuffer where "buffer2 = \<lparr>duration = 1, pcm = chunk2\<rparr>"

definition buffer3 :: AudioBuffer where "buffer3 = \<lparr>duration = 1 / 2, pcm = chunk3\<rparr>"

definition started :: PromptDjApp where
  "started = run initial [PlayPause 0 1, ConnectDone 0]"

definition playingThree :: PromptDjApp where
  "playingThree = run started
     [ServerMessage (Some chunk1), Decoded buffer1 0,
      ServerMessage (Some chunk2), Decoded buffer2 (1 / 4),
      ServerMessage (Some chunk3), Decoded buffer3 (1 / 2)]"

text \<open>
  The example session paused at device time 2, a fourth chunk whose buffer lasts 2 s, and
  a session that plays only that buffer, observed at device time 2.
\<close>

definition chunk4 :: chunk where "chunk4 = [4, 0, 4, 0]"

definition buffer4 :: AudioBuffer where
  "buffer4 = \<lparr>duration = 2, pcm = chunk4\<rparr>"

definition pausedThree :: PromptDjApp where
  "pausedThree = run playingThree [PlayPause 2 1]"

definition playingLong :: PromptDjApp where
  "playingLong = run started [ServerMessage (Some chunk4), Decoded buffer4 0, Frame 2]"

text \<open>
  A session in which the connection is requested twice: the user presses play, resets
  while the connection is pending, and presses play again. The first connection is made
  and plays one buffer; then the second connection is made, and \<open>loadAudio\<close> runs
  while the engine is playing.
\<close>

definition doubleConnect :: PromptDjApp where
  "doubleConnect = run initial
     [PlayPause 0 1, Reset, PlayPause 0 1, ConnectDone 0,
      ServerMessage (Some chunk1), Decoded buffer1 0, ConnectDone 1]"


text \<open>The example session with the second decode completing after a pause.\<close>

definition pausedDecode :: PromptDjApp where
  "pausedDecode = run started
     [ServerMessage (Some chunk1), Decoded buffer1 0,
      ServerMessage (Some chunk2), PlayPause (1 / 2) 1, Decoded buffer2 (3 / 4)]"

text \<open>
  Two streams for the export, received by the started session: 2000 bytes in two chunks,
  and \<open>2^32 - 36\<close> bytes in chunks of 4096 bytes (about six hours of audio).
\<close>

definition received :: "chunk list \<Rightarrow> PromptDjApp" where
  "received chunks = run started (map (\<lambda>c. ServerMessage (Some c)) chunks)"

definition twoThousand :: PromptDjApp where
  "twoThousand = received [replicate 1200 1, replicate 800 2]"

definition fourGiB :: PromptDjApp where
  "fourGiB = received (replicate 1048575 (replicate 4096 0) @ [replicate 4060 0])"

text \<open>
  One second of audio is playing; at device time 1.25 a click in the middle of the
  progress bar seeks to 0.5 s; then a second buffer is decoded at device time 1.5.
\<close>

definition seekThenDecode :: PromptDjApp where
  "seekThenDecode = run started
     [ServerMessage (Some chunk1), Decoded buffer1 0, SeekClick (1 / 2) (5 / 4),
      ServerMessage (Some chunk2), Decoded buffer2 (3 / 2)]"

section \<open>Properties\<close>

subsection \<open>The example session, evaluated\<close>

lemmas transport_defs =
  run_def initial_def handlePlayPause_def connectStart_def connectDone_def connectFailed_def
  loadAudio_def updateProgress_def sendCmd_def handleServerMessage_def onDecoded_def
  bufferTime_def pauseAudio_def clearAllSources_def stopAudio_def Let_def

lemma started_eq:
  "started = \<lparr>playbackState = Loading, totalDuration = 0, currentPlaybackTime = 0,
     activeSources = [], decodedAudioBuffers = [], isSeeking = False, streamStartTime = 0,
     session = Some [SessionPlay], receivedAudioChunks = [], nextStartTime = 0,
     gainEvents = [SetValueAtTime 0 0, LinearRampToValueAtTime 1 (1 / 10)]\<rparr>"
  by (simp add: started_def transport_defs)

lemma playingThree_eq:
  "playingThree = \<lparr>playbackState = Playing, totalDuration = 5 / 2, currentPlaybackTime = 0,
     activeSources = [\<lparr>src_buffer = buffer1, src_when = 1, src_offset = 0\<rparr>,
                      \<lparr>src_buffer = buffer2, src_when = 2, src_offset = 0\<rparr>,
                      \<lparr>src_buffer = buffer3, src_when = 3, src_offset = 0\<rparr>],
     decodedAudioBuffers = [buffer1, buffer2, buffer3], isSeeking = False, streamStartTime = 1,
     session = Some [SessionPlay], receivedAudioChunks = [chunk1, chunk2, chunk3],
     nextStartTime = 7 / 2,
     gainEvents = [SetValueAtTime 0 0, LinearRampToValueAtTime 1 (1 / 10)]\<rparr>"
  by (simp add: playingThree_def started_eq run_def handleServerMessage_def onDecoded_def
        updateProgress_def bufferTime_def Let_def buffer1_def buffer2_def buffer3_def)

subsection \<open>The seek loop in closed form\<close>

text \<open>Once a buffer has been scheduled, the loop schedules all that follow back to back.\<close>

lemma seekLoop_scheduled:
  "seekLoop t bs acc True s =
     s\<lparr>activeSources := activeSources s @ backToBack (nextStartTime s) bs,
       nextStartTime := nextStartTime s + sum_list (map duration bs)\<rparr>"
proof (induction bs arbitrary: acc s)
  case Nil
  show ?case by simp
next
  case (Cons b bs)
  show ?case
    by (simp add: Cons.IH scheduleBuffer_def Let_def add.assoc)
qed




subsection \<open>Sums on a dyadic grid\<close>










subsection \<open>Seeking to a buffer boundary\<close>




subsection \<open>Seeking to the end of the timeline\<close>




subsection \<open>Which events create scheduled units\<close>

lemma seekLoop_sources_other [simp]:
  "decodedAudioBuffers (seekLoop t bs acc h s) = decodedAudioBuffers s"
  "totalDuration (seekLoop t bs acc h s) = totalDuration s"
  "receivedAudioChunks (seekLoop t bs acc h s) = receivedAudioChunks s"
  "playbackState (seekLoop t bs acc h s) = playbackState s"
  "session (seekLoop t bs acc h s) = session s"
  by (induction t bs acc h s rule: seekLoop.induct; simp add: scheduleBuffer_def Let_def)+

lemma seekLoop_cursor [simp]:
  "currentPlaybackTime (seekLoop t bs acc h s) = currentPlaybackTime s"
  by (induction t bs acc h s rule: seekLoop.induct) (simp_all add: scheduleBuffer_def Let_def)

lemma seekToTime_chunks [simp]:
  "receivedAudioChunks (seekToTime s t now) = receivedAudioChunks s"
  by (simp add: seekToTime_def clearAllSources_def Let_def)

text \<open>
  An event that is not a seek adds at most one unit, for the buffer whose decode it
  completes.
\<close>

lemma step_sources_no_seek:
  assumes "\<not> isSeekEvent e" and "u \<in> set (activeSources (step s e))"
  shows "u \<in> set (activeSources s) \<or> (\<exists>now. e = Decoded (src_buffer u) now)"
proof (cases e)
  case (Decoded b now)
  then show ?thesis
    using assms(2) by (auto simp: onDecoded_def updateProgress_def Let_def split: if_splits)
next
  case (Ended i)
  then show ?thesis
    using assms(2) by (auto simp: onended_def dest: in_set_takeD in_set_dropD)
next
  case (PlayPause now g)
  then show ?thesis
    using assms(2)
    by (auto simp: handlePlayPause_def pauseAudio_def loadAudio_def updateProgress_def
          connectStart_def clearAllSources_def Let_def split: if_splits)
next
  case (ConnectDone now)
  then show ?thesis
    using assms(2)
    by (auto simp: connectDone_def loadAudio_def updateProgress_def Let_def split: if_splits)
qed (use assms in \<open>auto simp: handleServerMessage_def connectFailed_def stopAudio_def
      clearAllSources_def updateProgress_def handleSeekPointerDown_def onPointerMove_def
      Let_def split: option.splits if_splits\<close>)

lemma run_sources_no_seek:
  assumes "\<forall>e \<in> set evs. \<not> isSeekEvent e \<and> (\<forall>t. e \<noteq> Decoded b t)"
    and "u \<in> set (activeSources (run s evs))" and "src_buffer u = b"
  shows "u \<in> set (activeSources s)"
  using assms
proof (induction evs arbitrary: s)
  case Nil
  then show ?case by (simp add: run_def)
next
  case (Cons e evs)
  have "u \<in> set (activeSources (step s e))"
    using Cons.IH [of "step s e"] Cons.prems by (simp add: run_def)
  moreover have "\<not> isSeekEvent e" and "\<forall>t. e \<noteq> Decoded b t"
    using Cons.prems(1) by simp_all
  ultimately show ?case
    using step_sources_no_seek [of e u s] Cons.prems(3) by auto
qed

text \<open>A seek to time 0 schedules every buffer of the timeline, in order.\<close>

lemma seek_zero_schedules_all:
  assumes "\<forall>x \<in> set (decodedAudioBuffers s). 0 \<le> duration x"
  shows "map src_buffer (activeSources (seekToTime s 0 now)) = decodedAudioBuffers s"
proof (cases "decodedAudioBuffers s")
  case Nil
  then show ?thesis by (simp add: seekToTime_def clearAllSources_def Let_def)
next
  case (Cons b bs)
  have map_chain: "map src_buffer (backToBack t xs) = xs" for t xs
    by (induction xs arbitrary: t) simp_all
  have "0 \<le> duration b" using assms Cons by simp
  then show ?thesis
    using Cons
    by (simp add: seekToTime_def clearAllSources_def Let_def seekLoop_scheduled
          scheduleBuffer_def map_chain)
qed

lemma pausedThree_eq:
  "pausedThree = \<lparr>playbackState = Paused, totalDuration = 5 / 2, currentPlaybackTime = 0,
     activeSources = [],
     decodedAudioBuffers = [buffer1, buffer2, buffer3], isSeeking = False, streamStartTime = 1,
     session = Some [SessionPlay, SessionPause], receivedAudioChunks = [chunk1, chunk2, chunk3],
     nextStartTime = 7 / 2,
     gainEvents = [SetValueAtTime 0 0, LinearRampToValueAtTime 1 (1 / 10),
                   SetValueAtTime 1 2, LinearRampToValueAtTime 0 (21 / 10)]\<rparr>"
  by (simp add: pausedThree_def playingThree_eq run_def handlePlayPause_def pauseAudio_def
        sendCmd_def clearAllSources_def Let_def)

subsection \<open>A decode that completes while paused or stopped\<close>

text \<open>
  Claim C10: when the decode callback runs while the state is paused or stopped, the
  buffer is appended to \<open>decodedAudioBuffers\<close> and nothing else changes: no unit is
  created, \<open>totalDuration\<close> and \<open>nextStartTime\<close> keep their values. In every later
  run without a seek (and without another decode completion delivering an equal buffer)
  no unit playing this buffer is created; a later seek does schedule it (a seek to 0
  schedules the whole timeline, this buffer last).
\<close>

theorem decode_while_paused_or_stopped:
  assumes "playbackState s = Paused \<or> playbackState s = Stopped"
  shows "onDecoded s b now = s\<lparr>decodedAudioBuffers := decodedAudioBuffers s @ [b]\<rparr> \<and>
         (\<forall>evs. (\<forall>e \<in> set evs. \<not> isSeekEvent e \<and> (\<forall>t. e \<noteq> Decoded b t)) \<longrightarrow>
            (\<forall>u \<in> set (activeSources (run (onDecoded s b now) evs)).
               src_buffer u = b \<longrightarrow> u \<in> set (activeSources s))) \<and>
         ((\<forall>x \<in> set (decodedAudioBuffers s). 0 \<le> duration x) \<and> 0 \<le> duration b \<longrightarrow>
            (\<forall>t. map src_buffer (activeSources (seekToTime (onDecoded s b now) 0 t)) =
                 decodedAudioBuffers s @ [b]))"
proof -
  have eq: "onDecoded s b now = s\<lparr>decodedAudioBuffers := decodedAudioBuffers s @ [b]\<rparr>"
    using assms by (auto simp: onDecoded_def Let_def)
  have only_seek: "\<forall>evs. (\<forall>e \<in> set evs. \<not> isSeekEvent e \<and> (\<forall>t. e \<noteq> Decoded b t)) \<longrightarrow>
            (\<forall>u \<in> set (activeSources (run (onDecoded s b now) evs)).
               src_buffer u = b \<longrightarrow> u \<in> set (activeSources s))"
  proof (intro allI impI ballI)
    fix evs u
    assume "\<forall>e \<in> set evs. \<not> isSeekEvent e \<and> (\<forall>t. e \<noteq> Decoded b t)"
      and "u \<in> set (activeSources (run (onDecoded s b now) evs))" and "src_buffer u = b"
    then have "u \<in> set (activeSources (onDecoded s b now))"
      by (rule run_sources_no_seek)
    then show "u \<in> set (activeSources s)" by (simp add: eq)
  qed
  have by_seek: "(\<forall>x \<in> set (decodedAudioBuffers s). 0 \<le> duration x) \<and> 0 \<le> duration b \<longrightarrow>
            (\<forall>t. map src_buffer (activeSources (seekToTime (onDecoded s b now) 0 t)) =
                 decodedAudioBuffers s @ [b])"
  proof (intro impI allI)
    fix t
    assume "(\<forall>x \<in> set (decodedAudioBuffers s). 0 \<le> duration x) \<and> 0 \<le> duration b"
    then have "\<forall>x \<in> set (decodedAudioBuffers (onDecoded s b now)). 0 \<le> duration x"
      by (auto simp: eq)
    from seek_zero_schedules_all [OF this, of t]
    show "map src_buffer (activeSources (seekToTime (onDecoded s b now) 0 t)) =
                 decodedAudioBuffers s @ [b]"
      by (simp add: eq)
  qed
  show ?thesis using eq only_seek by_seek by blast
qed

text \<open>
  C10 in the example session: a fourth buffer is decoded while paused; resuming and
  running frames creates no unit, a seek to 0 schedules all four buffers.
\<close>

theorem decode_while_paused_or_stopped_witness:
  "playbackState pausedThree = Paused \<and>
   onDecoded pausedThree buffer4 3 =
     pausedThree\<lparr>decodedAudioBuffers := [buffer1, buffer2, buffer3, buffer4]\<rparr> \<and>
   activeSources (run (onDecoded pausedThree buffer4 3) [Frame 4, PlayPause 4 0, Frame 5]) = [] \<and>
   map src_buffer (activeSources (seekToTime (onDecoded pausedThree buffer4 3) 0 5)) =
     [buffer1, buffer2, buffer3, buffer4]"
  using decode_while_paused_or_stopped [of pausedThree buffer4 3]
  by (simp add: pausedThree_eq run_def handlePlayPause_def loadAudio_def updateProgress_def
        sendCmd_def onDecoded_def seekToTime_def clearAllSources_def scheduleBuffer_def Let_def
        buffer1_def buffer2_def buffer3_def buffer4_def)

subsection \<open>Gapless look-ahead scheduling\<close>

text \<open>The decode callback while playing or loading, while paused or stopped, and the other events.\<close>

lemma decode_live:
  assumes "playbackState s = Playing \<or> playbackState s = Loading"
  shows "activeSources (onDecoded s b now) = activeSources s @
           [\<lparr>src_buffer = b,
              src_when = (if nextStartTime s = 0 then now + 1
                          else if nextStartTime s < now then now else nextStartTime s),
              src_offset = 0\<rparr>]"
    and "nextStartTime (onDecoded s b now) =
           (if nextStartTime s = 0 then now + 1
            else if nextStartTime s < now then now else nextStartTime s) + duration b"
    and "nextStartTime s = 0 \<Longrightarrow> streamStartTime (onDecoded s b now) = now + 1"
    and "nextStartTime s \<noteq> 0 \<Longrightarrow> streamStartTime (onDecoded s b now) = streamStartTime s"
  using assms
  by (auto simp: onDecoded_def updateProgress_def bufferTime_def Let_def)

lemma decode_idle:
  assumes "playbackState s = Paused \<or> playbackState s = Stopped"
  shows "activeSources (onDecoded s b now) = activeSources s"
    and "nextStartTime (onDecoded s b now) = nextStartTime s"
  using assms by (auto simp: onDecoded_def Let_def)

lemma step_neutral:
  assumes "e \<noteq> Reset" and "\<not> isSeekEvent e" and "\<forall>b now. e \<noteq> Decoded b now"
  shows "nextStartTime (step s e) = nextStartTime s"
  using assms
  by (cases e)
     (auto simp: handleServerMessage_def onended_def handlePlayPause_def connectStart_def
        connectDone_def connectFailed_def loadAudio_def pauseAudio_def updateProgress_def
        clearAllSources_def handleSeekPointerDown_def onPointerMove_def sendCmd_def Let_def
        split: option.splits)

lemma run_Cons: "run s (e # evs) = run (step s e) evs"
  by (simp add: run_def)

text \<open>
  Over a run without seek and reset, whatever else happens in between, the units the
  decode callbacks append follow the scheduling rule, and \<open>nextStartTime\<close> ends as
  the rule's pending start time.
\<close>

lemma log_follows:
  assumes "\<forall>e \<in> set evs. e \<noteq> Reset \<and> \<not> isSeekEvent e"
  shows "follows (nextStartTime s) (decodeLog s evs) \<and>
         nextStartTime (run s evs) = pendingAfter (nextStartTime s) (decodeLog s evs)"
  using assms
proof (induction evs arbitrary: s)
  case Nil
  show ?case by (simp add: run_def)
next
  case (Cons e evs)
  have rest: "\<forall>e \<in> set evs. e \<noteq> Reset \<and> \<not> isSeekEvent e"
    using Cons.prems by simp
  note IH = Cons.IH [OF rest, of "step s e"]
  show ?case
  proof (cases "\<exists>b now. e = Decoded b now")
    case True
    then obtain b now where e: "e = Decoded b now" by blast
    show ?thesis
    proof (cases "playbackState s = Playing \<or> playbackState s = Loading")
      case True
      from decode_live(1,2) [OF True, of b now] IH
      show ?thesis by (simp add: e run_Cons unitEnd_def)
    next
      case False
      then have idle: "playbackState s = Paused \<or> playbackState s = Stopped"
        by (cases "playbackState s") simp_all
      from decode_idle [OF idle, of b now] IH
      show ?thesis by (simp add: e run_Cons)
    qed
  next
    case False
    then have nd: "\<forall>b now. e \<noteq> Decoded b now" by blast
    have ne: "e \<noteq> Reset" "\<not> isSeekEvent e" using Cons.prems by simp_all
    have log: "decodeLog s (e # evs) = decodeLog (step s e) evs"
      using nd by (cases e) simp_all
    from step_neutral [OF ne nd, of s] IH
    show ?thesis by (simp add: log run_Cons)
  qed
qed

text \<open>
  With a clock and durations that are never negative every unit ends after time 0, so
  that \<open>nextStartTime\<close> is never taken for unset once a unit has been scheduled.
\<close>

lemma log_positive:
  assumes "\<forall>e \<in> set evs. e \<noteq> Reset \<and> \<not> isSeekEvent e"
    and "\<forall>b now. Decoded b now \<in> set evs \<longrightarrow> 0 \<le> duration b \<and> 0 \<le> now"
    and "0 \<le> nextStartTime s"
  shows "\<forall>(u, now) \<in> set (decodeLog s evs). 0 < unitEnd u"
  using assms
proof (induction evs arbitrary: s)
  case Nil
  show ?case by simp
next
  case (Cons e evs)
  have rest: "\<forall>e \<in> set evs. e \<noteq> Reset \<and> \<not> isSeekEvent e"
    "\<forall>b now. Decoded b now \<in> set evs \<longrightarrow> 0 \<le> duration b \<and> 0 \<le> now"
    using Cons.prems by simp_all
  show ?case
  proof (cases "\<exists>b now. e = Decoded b now")
    case True
    then obtain b now where e: "e = Decoded b now" by blast
    have nn: "0 \<le> duration b" "0 \<le> now" using Cons.prems(2) e by auto
    show ?thesis
    proof (cases "playbackState s = Playing \<or> playbackState s = Loading")
      case True
      note dl = decode_live(1,2) [OF True, of b now]
      have pos: "0 < nextStartTime (onDecoded s b now)"
        using dl(2) nn Cons.prems(3) by (auto split: if_splits)
      then have "0 \<le> nextStartTime (onDecoded s b now)" by simp
      from Cons.IH [OF rest this] dl pos
      show ?thesis by (simp add: e unitEnd_def)
    next
      case False
      then have idle: "playbackState s = Paused \<or> playbackState s = Stopped"
        by (cases "playbackState s") simp_all
      note di = decode_idle [OF idle, of b now]
      have "0 \<le> nextStartTime (onDecoded s b now)" using di Cons.prems(3) by simp
      from Cons.IH [OF rest this] di
      show ?thesis by (simp add: e)
    qed
  next
    case False
    then have nd: "\<forall>b now. e \<noteq> Decoded b now" by blast
    have ne: "e \<noteq> Reset" "\<not> isSeekEvent e" using Cons.prems(1) by simp_all
    have log: "decodeLog s (e # evs) = decodeLog (step s e) evs"
      using nd by (cases e) simp_all
    have "0 \<le> nextStartTime (step s e)"
      using step_neutral [OF ne nd, of s] Cons.prems(3) by simp
    from Cons.IH [OF rest this]
    show ?thesis by (simp add: log)
  qed
qed

text \<open>The seek path: the units of a seek abut, from the device time of the seek.\<close>

lemma abutting_snoc:
  "abutting t (us @ [u]) = (abutting t us \<and> src_when u = endOf t us)"
  by (induction t us rule: abutting.induct) auto

lemma endOf_snoc: "endOf t (us @ [u]) = unitEnd u"
  by (induction t us rule: endOf.induct) auto

lemma scheduleBuffer_eq:
  "scheduleBuffer s b startT off =
     s\<lparr>activeSources := activeSources s @
          [\<lparr>src_buffer = b, src_when = startT, src_offset = off\<rparr>],
       nextStartTime := startT + (duration b - off)\<rparr>"
  by (simp add: scheduleBuffer_def Let_def)

lemma seekLoop_abutting:
  assumes "abutting t0 (activeSources s)" and "nextStartTime s = endOf t0 (activeSources s)"
    and "\<not> h \<longrightarrow> activeSources s = []"
    and "\<forall>u \<in> set (tl (activeSources s)). src_offset u = 0"
  shows "abutting t0 (activeSources (seekLoop t bs acc h s)) \<and>
         nextStartTime (seekLoop t bs acc h s) = endOf t0 (activeSources (seekLoop t bs acc h s)) \<and>
         (\<forall>u \<in> set (tl (activeSources (seekLoop t bs acc h s))). src_offset u = 0)"
  using assms
proof (induction t bs acc h s rule: seekLoop.induct)
  case (1 seekTime accumulatedDuration hasScheduled s)
  then show ?case by simp
next
  case (2 seekTime buf bufs accumulatedDuration hasScheduled s)
  show ?case
  proof (cases "\<not> hasScheduled \<and> accumulatedDuration + duration buf \<ge> seekTime")
    case True
    let ?s' = "scheduleBuffer s buf (nextStartTime s) (seekTime - accumulatedDuration)"
    have empty: "activeSources s = []" using True "2.prems"(3) by simp
    have a: "abutting t0 (activeSources ?s')"
      using "2.prems"(1,2) by (simp add: scheduleBuffer_eq abutting_snoc)
    have b: "nextStartTime ?s' = endOf t0 (activeSources ?s')"
      by (simp add: scheduleBuffer_eq endOf_snoc unitEnd_def)
    have c: "\<not> True \<longrightarrow> activeSources ?s' = []" by simp
    have d: "\<forall>u \<in> set (tl (activeSources ?s')). src_offset u = 0"
      by (simp add: scheduleBuffer_eq empty)
    show ?thesis
      using "2.IH"(1) [OF refl _ a b c d] True by (simp add: Let_def)
  next
    case False
    show ?thesis
    proof (cases hasScheduled)
      case True
      let ?s' = "scheduleBuffer s buf (nextStartTime s) 0"
      have a: "abutting t0 (activeSources ?s')"
        using "2.prems"(1,2) by (simp add: scheduleBuffer_eq abutting_snoc)
      have b: "nextStartTime ?s' = endOf t0 (activeSources ?s')"
        by (simp add: scheduleBuffer_eq endOf_snoc unitEnd_def)
      have c: "\<not> hasScheduled \<longrightarrow> activeSources ?s' = []" using True by simp
      have d: "\<forall>u \<in> set (tl (activeSources ?s')). src_offset u = 0"
        using "2.prems"(4) by (cases "activeSources s") (simp_all add: scheduleBuffer_eq)
      show ?thesis
        using "2.IH"(2) [OF refl _ _ a b c d] True False by (simp add: Let_def)
    next
      case nh: False
      show ?thesis
        using "2.IH"(3) [OF refl _ _ "2.prems"] False nh by (simp add: Let_def)
    qed
  qed
qed

lemma seekToTime_abutting:
  "abutting now (activeSources (seekToTime s t now)) \<and>
   nextStartTime (seekToTime s t now) = endOf now (activeSources (seekToTime s t now)) \<and>
   (\<forall>u \<in> set (tl (activeSources (seekToTime s t now))). src_offset u = 0)"
proof -
  let ?s2 = "(clearAllSources s)\<lparr>currentPlaybackTime := t, streamStartTime := now - t,
                  nextStartTime := now\<rparr>"
  have "abutting now (activeSources (seekLoop t (decodedAudioBuffers ?s2) 0 False ?s2)) \<and>
        nextStartTime (seekLoop t (decodedAudioBuffers ?s2) 0 False ?s2) =
          endOf now (activeSources (seekLoop t (decodedAudioBuffers ?s2) 0 False ?s2)) \<and>
        (\<forall>u \<in> set (tl (activeSources (seekLoop t (decodedAudioBuffers ?s2) 0 False ?s2))).
           src_offset u = 0)"
    by (rule seekLoop_abutting) (simp_all add: clearAllSources_def)
  then show ?thesis
    by (simp add: seekToTime_def Let_def)
qed

lemma playingThree_seek:
  "seekToTime playingThree (3 / 2) 4 =
     playingThree\<lparr>activeSources := [\<lparr>src_buffer = buffer2, src_when = 4, src_offset = 1 / 2\<rparr>,
                                       \<lparr>src_buffer = buffer3, src_when = 9 / 2, src_offset = 0\<rparr>],
       currentPlaybackTime := 3 / 2, streamStartTime := 5 / 2, nextStartTime := 5\<rparr>"
  by (simp add: playingThree_eq seekToTime_def clearAllSources_def scheduleBuffer_def Let_def
        buffer1_def buffer2_def buffer3_def)

lemma playingThree_seek_zero:
  "activeSources (seekToTime playingThree 0 4) =
     [\<lparr>src_buffer = buffer1, src_when = 4, src_offset = 0\<rparr>,
      \<lparr>src_buffer = buffer2, src_when = 5, src_offset = 0\<rparr>,
      \<lparr>src_buffer = buffer3, src_when = 6, src_offset = 0\<rparr>]"
  by (simp add: playingThree_eq seekToTime_def clearAllSources_def scheduleBuffer_def Let_def
        buffer1_def buffer2_def buffer3_def)

text \<open>
  Claim C1 as stated fails when the unit before was scheduled by a seek into its buffer.
  One second of audio is playing; at device time 1.25 a seek to 0.5 s schedules the
  buffer at 1.25 from offset 0.5, so that it ends at 1.75; the buffer decoded next
  starts at 1.75, not at 1.25 plus the whole duration 1 of the previous buffer.
\<close>

theorem gapless_counterexample:
  "activeSources seekThenDecode =
     [\<lparr>src_buffer = buffer1, src_when = 5 / 4, src_offset = 1 / 2\<rparr>,
      \<lparr>src_buffer = buffer2, src_when = 7 / 4, src_offset = 0\<rparr>] \<and>
   (7 / 4 :: real) \<noteq> 5 / 4 + duration buffer1"
  by (simp add: seekThenDecode_def started_eq run_def handleServerMessage_def onDecoded_def
        updateProgress_def bufferTime_def handleSeek_def seekRatio_def seekToTime_def
        clearAllSources_def scheduleBuffer_def Let_def buffer1_def buffer2_def)

text \<open>
  C1, amended. A decode completion while playing or loading appends one unit, playing
  its buffer from offset 0, at \<open>nextStartTime\<close>; at \<open>now + 1\<close> (the look-ahead
  \<open>bufferTime\<close>) when \<open>nextStartTime\<close> is unset (0), which also sets
  \<open>streamStartTime\<close>; at \<open>now\<close> when the clock has passed \<open>nextStartTime\<close>. It
  leaves in \<open>nextStartTime\<close> the end of that unit. \<open>scheduleBuffer\<close> appends the
  unit it is given and leaves in \<open>nextStartTime\<close> the end of that unit, its start
  plus the duration of its buffer less the offset. The units of a seek abut from
  \<open>now\<close>, only the first can have an offset, and \<open>nextStartTime\<close> is left at the
  end of the last of them; a seek to 0 schedules every buffer of the timeline, in
  order. In every run without seek and reset, whatever other events
  it holds, the units appended by decode callbacks follow the rule from the
  \<open>nextStartTime\<close> of its first state: each starts at the end of the unit scheduled
  before it (that unit's start plus the part of its buffer it plays), or at \<open>now\<close>
  when the clock has passed that time; and with a clock and durations that are never
  negative no unit ends at 0, so only a unit scheduled while \<open>nextStartTime\<close> is
  unset is seeded. A reset unsets \<open>nextStartTime\<close>. The sums are the ones the
  program computes and stores.
\<close>

theorem gapless_scheduling:
  "(playbackState s = Playing \<or> playbackState s = Loading \<longrightarrow>
      activeSources (onDecoded s b now) = activeSources s @
        [\<lparr>src_buffer = b,
           src_when = (if nextStartTime s = 0 then now + 1
                       else if nextStartTime s < now then now else nextStartTime s),
           src_offset = 0\<rparr>] \<and>
      nextStartTime (onDecoded s b now) =
        (if nextStartTime s = 0 then now + 1
         else if nextStartTime s < now then now else nextStartTime s) + duration b \<and>
      (nextStartTime s = 0 \<longrightarrow> streamStartTime (onDecoded s b now) = now + 1)) \<and>
   scheduleBuffer s b startT off =
     s\<lparr>activeSources := activeSources s @
          [\<lparr>src_buffer = b, src_when = startT, src_offset = off\<rparr>],
       nextStartTime := startT + (duration b - off)\<rparr> \<and>
   abutting now (activeSources (seekToTime s t now)) \<and>
   nextStartTime (seekToTime s t now) = endOf now (activeSources (seekToTime s t now)) \<and>
   (\<forall>u \<in> set (tl (activeSources (seekToTime s t now))). src_offset u = 0) \<and>
   ((\<forall>e \<in> set evs. e \<noteq> Reset \<and> \<not> isSeekEvent e) \<longrightarrow>
      follows (nextStartTime s) (decodeLog s evs) \<and>
      nextStartTime (run s evs) = pendingAfter (nextStartTime s) (decodeLog s evs)) \<and>
   ((\<forall>e \<in> set evs. e \<noteq> Reset \<and> \<not> isSeekEvent e) \<and>
    (\<forall>b now. Decoded b now \<in> set evs \<longrightarrow> 0 \<le> duration b \<and> 0 \<le> now) \<and>
    0 \<le> nextStartTime s \<longrightarrow>
      (\<forall>(u, now) \<in> set (decodeLog s evs). 0 < unitEnd u)) \<and>
   ((\<forall>x \<in> set (decodedAudioBuffers s). 0 \<le> duration x) \<longrightarrow>
      map src_buffer (activeSources (seekToTime s 0 now)) = decodedAudioBuffers s) \<and>
   nextStartTime (stopAudio s) = 0"
proof -
  have live: "playbackState s = Playing \<or> playbackState s = Loading \<longrightarrow>
      activeSources (onDecoded s b now) = activeSources s @
        [\<lparr>src_buffer = b,
           src_when = (if nextStartTime s = 0 then now + 1
                       else if nextStartTime s < now then now else nextStartTime s),
           src_offset = 0\<rparr>] \<and>
      nextStartTime (onDecoded s b now) =
        (if nextStartTime s = 0 then now + 1
         else if nextStartTime s < now then now else nextStartTime s) + duration b \<and>
      (nextStartTime s = 0 \<longrightarrow> streamStartTime (onDecoded s b now) = now + 1)"
    using decode_live(1,2,3) [of s b now] by blast
  have stop: "nextStartTime (stopAudio s) = 0"
    by (simp add: stopAudio_def clearAllSources_def Let_def)
  show ?thesis
    using live scheduleBuffer_eq [of s b startT off] seekToTime_abutting [of now s t]
      log_follows [of evs s] log_positive [of evs s] seek_zero_schedules_all [of s now] stop
    by blast
qed

text \<open>
  The amended C1 on the example: the first decode of the started session is seeded at 1;
  a seek of the example session to 1.5 s at device time 4 schedules the second buffer
  from offset 0.5 and the third where it ends; and in a run with messages, a frame and
  an ended unit in between, the three buffers start at 1 (seeded), 2 (gapless) and 4
  (clamped, the third arriving at device time 4).
\<close>

theorem gapless_scheduling_witness:
  "playbackState started = Loading \<and> nextStartTime started = 0 \<and>
   activeSources (onDecoded started buffer1 0) =
     [\<lparr>src_buffer = buffer1, src_when = 1, src_offset = 0\<rparr>] \<and>
   nextStartTime (onDecoded started buffer1 0) = 2 \<and>
   streamStartTime (onDecoded started buffer1 0) = 1 \<and>
   activeSources (seekToTime playingThree (3 / 2) 4) =
     [\<lparr>src_buffer = buffer2, src_when = 4, src_offset = 1 / 2\<rparr>,
      \<lparr>src_buffer = buffer3, src_when = 9 / 2, src_offset = 0\<rparr>] \<and>
   nextStartTime (seekToTime playingThree (3 / 2) 4) = 5 \<and>
   activeSources (seekToTime playingThree 0 4) =
     [\<lparr>src_buffer = buffer1, src_when = 4, src_offset = 0\<rparr>,
      \<lparr>src_buffer = buffer2, src_when = 5, src_offset = 0\<rparr>,
      \<lparr>src_buffer = buffer3, src_when = 6, src_offset = 0\<rparr>] \<and>
   decodeLog started
     [ServerMessage (Some chunk1), Decoded buffer1 0, Frame (1 / 2),
      ServerMessage (Some chunk2), Decoded buffer2 (3 / 4), Ended 0,
      ServerMessage (Some chunk3), Decoded buffer3 4] =
     [(\<lparr>src_buffer = buffer1, src_when = 1, src_offset = 0\<rparr>, 0),
      (\<lparr>src_buffer = buffer2, src_when = 2, src_offset = 0\<rparr>, 3 / 4),
      (\<lparr>src_buffer = buffer3, src_when = 4, src_offset = 0\<rparr>, 4)] \<and>
   nextStartTime (run started
     [ServerMessage (Some chunk1), Decoded buffer1 0, Frame (1 / 2),
      ServerMessage (Some chunk2), Decoded buffer2 (3 / 4), Ended 0,
      ServerMessage (Some chunk3), Decoded buffer3 4]) = 9 / 2"
  using gapless_scheduling [of started buffer1 0 0 0 0
          "[ServerMessage (Some chunk1), Decoded buffer1 0, Frame (1 / 2),
            ServerMessage (Some chunk2), Decoded buffer2 (3 / 4), Ended 0,
            ServerMessage (Some chunk3), Decoded buffer3 4]"]
        gapless_scheduling [of playingThree buffer1 4 0 0 "3 / 2" "[]"]
  by (simp add: started_eq playingThree_seek playingThree_seek_zero run_def handleServerMessage_def onDecoded_def
        updateProgress_def bufferTime_def onended_def Let_def
        buffer1_def buffer2_def buffer3_def)

subsection \<open>The chunk store\<close>

lemma step_chunks:
  "receivedAudioChunks (step s e) =
     (case e of
        ServerMessage (Some c) \<Rightarrow> receivedAudioChunks s @ [c]
      | Reset \<Rightarrow> []
      | _ \<Rightarrow> receivedAudioChunks s)"
  by (cases e)
     (simp_all add: handleServerMessage_def onended_def handlePlayPause_def connectStart_def
        connectDone_def connectFailed_def stopAudio_def clearAllSources_def handleSeek_def
        handleSeekPointerDown_def onPointerMove_def onPointerUp_def Let_def
        loadAudio_def pauseAudio_def updateProgress_def onDecoded_def
        split: option.splits)

lemma run_chunks_prefix:
  "Reset \<notin> set evs \<Longrightarrow> prefix (receivedAudioChunks s) (receivedAudioChunks (run s evs))"
proof (induction evs arbitrary: s)
  case Nil
  then show ?case by (simp add: run_def)
next
  case (Cons e evs)
  have "prefix (receivedAudioChunks s) (receivedAudioChunks (step s e))"
    using Cons.prems step_chunks [of s e]
    by (cases e) (auto split: option.splits simp del: step.simps)
  moreover have "prefix (receivedAudioChunks (step s e)) (receivedAudioChunks (run (step s e) evs))"
    using Cons by simp
  ultimately show ?case by (simp add: run_def)
qed

text \<open>
  Claim C9: \<open>pauseAudio\<close> (and the play/pause button as a whole) leaves
  \<open>receivedAudioChunks\<close> as it is; \<open>stopAudio\<close> empties it; every event other than
  the reset keeps the stored chunks as a prefix of the new store, and so does every run
  without a reset: the store only grows until it is reset.
\<close>

theorem chunk_store_append_only:
  "receivedAudioChunks (pauseAudio s now g) = receivedAudioChunks s \<and>
   receivedAudioChunks (step s (PlayPause now g)) = receivedAudioChunks s \<and>
   receivedAudioChunks (stopAudio s) = [] \<and>
   (\<forall>e. e \<noteq> Reset \<longrightarrow> prefix (receivedAudioChunks s) (receivedAudioChunks (step s e))) \<and>
   (\<forall>evs. Reset \<notin> set evs \<longrightarrow> prefix (receivedAudioChunks s) (receivedAudioChunks (run s evs)))"
proof -
  have pause: "receivedAudioChunks (pauseAudio s now g) = receivedAudioChunks s"
    by (simp add: pauseAudio_def clearAllSources_def Let_def)
  have toggle: "receivedAudioChunks (step s (PlayPause now g)) = receivedAudioChunks s"
    using step_chunks [of s "PlayPause now g"] by (simp del: step.simps)
  have stop: "receivedAudioChunks (stopAudio s) = []"
    by (simp add: stopAudio_def clearAllSources_def Let_def)
  have one: "\<forall>e. e \<noteq> Reset \<longrightarrow> prefix (receivedAudioChunks s) (receivedAudioChunks (step s e))"
  proof (intro allI impI)
    fix e :: event assume "e \<noteq> Reset"
    then have "prefix (receivedAudioChunks s) (receivedAudioChunks (run s [e]))"
      by (intro run_chunks_prefix) simp
    then show "prefix (receivedAudioChunks s) (receivedAudioChunks (step s e))"
      by (simp add: run_def)
  qed
  show ?thesis using pause toggle stop one run_chunks_prefix by blast
qed

text \<open>C9 in the example session: pause, a chunk arriving while paused, resume.\<close>

theorem chunk_store_append_only_witness:
  "receivedAudioChunks (pauseAudio playingThree 2 1) = [chunk1, chunk2, chunk3] \<and>
   PlayPause 2 1 \<noteq> Reset \<and>
   Reset \<notin> set [PlayPause 2 1, ServerMessage (Some chunk4), PlayPause 3 0] \<and>
   receivedAudioChunks (run playingThree
       [PlayPause 2 1, ServerMessage (Some chunk4), PlayPause 3 0]) =
     [chunk1, chunk2, chunk3, chunk4] \<and>
   receivedAudioChunks (stopAudio playingThree) = []"
  using chunk_store_append_only [of playingThree 2 1]
  by (simp add: playingThree_eq run_def handlePlayPause_def pauseAudio_def loadAudio_def
        updateProgress_def sendCmd_def handleServerMessage_def stopAudio_def
        clearAllSources_def Let_def)

subsection \<open>The playback-time cursor\<close>

lemma doubleConnect_eq:
  "doubleConnect = \<lparr>playbackState = Loading, totalDuration = 1, currentPlaybackTime = 0,
     activeSources = [\<lparr>src_buffer = buffer1, src_when = 1, src_offset = 0\<rparr>],
     decodedAudioBuffers = [buffer1], isSeeking = False, streamStartTime = 1,
     session = Some [SessionPlay], receivedAudioChunks = [chunk1],
     nextStartTime = 2,
     gainEvents = [SetValueAtTime 0 0, LinearRampToValueAtTime 1 (1 / 10),
                   SetValueAtTime 0 1, LinearRampToValueAtTime 1 (11 / 10)]\<rparr>"
  by (simp add: doubleConnect_def transport_defs buffer1_def)

text \<open>
  Claim C8 as stated fails for the loading state. In the session with two connections
  the state is loading with one second of audio; a frame at device time 1.5 moves the
  cursor from 0 to 0.5.
\<close>

theorem cursor_loading_counterexample:
  "playbackState doubleConnect = Loading \<and>
   currentPlaybackTime doubleConnect = 0 \<and>
   currentPlaybackTime (updateProgress doubleConnect (3 / 2)) = 1 / 2"
  by (simp add: doubleConnect_eq updateProgress_def)

lemma step_cursor_idle:
  assumes "playbackState s = Stopped \<or> playbackState s = Paused"
    and "\<not> isSeekEvent e" and "e \<noteq> Reset" and "\<forall>x. e \<noteq> PointerMove x"
  shows "currentPlaybackTime (step s e) = currentPlaybackTime s"
  using assms
  by (cases e)
     (auto simp: handleServerMessage_def onDecoded_def onended_def handlePlayPause_def
        connectStart_def connectDone_def connectFailed_def loadAudio_def pauseAudio_def
        updateProgress_def clearAllSources_def handleSeekPointerDown_def Let_def
        split: option.splits)

text \<open>
  C8, amended: in the stopped and paused states \<open>updateProgress\<close> changes nothing,
  and no event other than a seek, a drag of the handle or a reset changes the cursor. In
  the loading state \<open>updateProgress\<close> runs as it does while playing: unless a drag is
  in progress it sets the cursor to \<open>max 0 (min (now - streamStartTime) totalDuration)\<close>,
  which changes nothing when \<open>totalDuration\<close> and the cursor are 0, as they are when
  loading is entered after a reset.
\<close>

theorem cursor_update_by_state:
  "(playbackState s = Stopped \<or> playbackState s = Paused \<longrightarrow> updateProgress s now = s) \<and>
   (playbackState s = Stopped \<or> playbackState s = Paused \<longrightarrow>
      (\<forall>e. \<not> isSeekEvent e \<and> e \<noteq> Reset \<and> (\<forall>x. e \<noteq> PointerMove x) \<longrightarrow>
         currentPlaybackTime (step s e) = currentPlaybackTime s)) \<and>
   (playbackState s = Loading \<and> totalDuration s = 0 \<and> currentPlaybackTime s = 0 \<longrightarrow>
      updateProgress s now = s) \<and>
   (playbackState s = Loading \<and> \<not> isSeeking s \<longrightarrow>
      currentPlaybackTime (updateProgress s now) =
        max 0 (min (now - streamStartTime s) (totalDuration s)))"
  using step_cursor_idle [of s] by (auto simp: updateProgress_def)

text \<open>The amended C8 at the paused example, the freshly started session and the second connection.\<close>

theorem cursor_update_by_state_witness:
  "playbackState pausedThree = Paused \<and>
   updateProgress pausedThree 9 = pausedThree \<and>
   currentPlaybackTime (step pausedThree (Decoded buffer4 9)) = currentPlaybackTime pausedThree \<and>
   playbackState started = Loading \<and> totalDuration started = 0 \<and>
   currentPlaybackTime started = 0 \<and> \<not> isSeeking started \<and>
   updateProgress started 9 = started \<and>
   currentPlaybackTime (updateProgress doubleConnect (3 / 2)) =
     max 0 (min (3 / 2 - streamStartTime doubleConnect) (totalDuration doubleConnect))"
  using cursor_update_by_state [of pausedThree 9] cursor_update_by_state [of started 9]
    cursor_update_by_state [of doubleConnect "3 / 2"]
  by (simp add: pausedThree_eq started_eq doubleConnect_eq updateProgress_def onDecoded_def Let_def)

subsection \<open>Pause followed by resume\<close>

lemma playingLong_eq:
  "playingLong = \<lparr>playbackState = Playing, totalDuration = 2, currentPlaybackTime = 1,
     activeSources = [\<lparr>src_buffer = buffer4, src_when = 1, src_offset = 0\<rparr>],
     decodedAudioBuffers = [buffer4], isSeeking = False, streamStartTime = 1,
     session = Some [SessionPlay], receivedAudioChunks = [chunk4],
     nextStartTime = 3,
     gainEvents = [SetValueAtTime 0 0, LinearRampToValueAtTime 1 (1 / 10)]\<rparr>"
  by (simp add: playingLong_def started_eq transport_defs buffer4_def)

text \<open>
  Claim C6 as stated fails: \<open>loadAudio\<close> derives no schedule. A buffer of 2 s plays
  from device time 1; at device time 2 (cursor at 1 s) the engine is paused and resumed.
  After the resume the state is playing, but no unit is live and \<open>nextStartTime\<close> is
  still 3, whereas a schedule derived from the cursor (as \<open>seekToTime\<close> builds it) has
  the buffer starting at device time 2 from offset 1.
\<close>

theorem resume_counterexample:
  "playbackState (pauseAudio playingLong 2 1) = Paused \<and>
   currentPlaybackTime (pauseAudio playingLong 2 1) = 1 \<and>
   playbackState (loadAudio (pauseAudio playingLong 2 1) 2) = Playing \<and>
   activeSources (loadAudio (pauseAudio playingLong 2 1) 2) = [] \<and>
   nextStartTime (loadAudio (pauseAudio playingLong 2 1) 2) = 3 \<and>
   activeSources (seekToTime (pauseAudio playingLong 2 1) 1 2) =
     [\<lparr>src_buffer = buffer4, src_when = 2, src_offset = 1\<rparr>]"
  by (simp add: playingLong_eq pauseAudio_def loadAudio_def updateProgress_def sendCmd_def
        clearAllSources_def seekToTime_def scheduleBuffer_def Let_def buffer4_def)

text \<open>
  C6, amended: a resume request in the paused state (with a session) sets the state to
  playing, sends play to the session and fades the gain in, and changes nothing else:
  it schedules no unit. After a pause followed by a resume the cursor,
  \<open>streamStartTime\<close>, \<open>totalDuration\<close> and \<open>nextStartTime\<close> have the values they
  had at the pause, no unit is live, and the next cursor update computes the cursor from
  the device clock as it did before the pause.
\<close>

theorem resume_after_pause:
  assumes "session s \<noteq> None"
  shows "(playbackState s = Paused \<longrightarrow>
            loadAudio s now =
              s\<lparr>session := sendCmd SessionPlay (session s), playbackState := Playing,
                gainEvents := gainEvents s @
                  [SetValueAtTime 0 now, LinearRampToValueAtTime 1 (now + 1 / 10)]\<rparr>) \<and>
         playbackState (loadAudio (pauseAudio s t g) now) = Playing \<and>
         currentPlaybackTime (loadAudio (pauseAudio s t g) now) = currentPlaybackTime s \<and>
         streamStartTime (loadAudio (pauseAudio s t g) now) = streamStartTime s \<and>
         totalDuration (loadAudio (pauseAudio s t g) now) = totalDuration s \<and>
         nextStartTime (loadAudio (pauseAudio s t g) now) = nextStartTime s \<and>
         activeSources (loadAudio (pauseAudio s t g) now) = [] \<and>
         currentPlaybackTime (updateProgress (loadAudio (pauseAudio s t g) now) now') =
           (if isSeeking s then currentPlaybackTime s
            else max 0 (min (now' - streamStartTime s) (totalDuration s)))"
  using assms
  by (auto simp: loadAudio_def pauseAudio_def updateProgress_def sendCmd_def clearAllSources_def
        Let_def)

text \<open>The amended C6 in the session above: paused and resumed at device time 2.\<close>

theorem resume_after_pause_witness:
  "session playingLong \<noteq> None \<and>
   playbackState (pauseAudio playingLong 2 1) = Paused \<and>
   playbackState (loadAudio (pauseAudio playingLong 2 1) 2) = Playing \<and>
   currentPlaybackTime (loadAudio (pauseAudio playingLong 2 1) 2) = 1 \<and>
   currentPlaybackTime (updateProgress (loadAudio (pauseAudio playingLong 2 1) 2) 2) = 1"
  using resume_after_pause [of playingLong 2 2 1 2] resume_after_pause [of "pauseAudio playingLong 2 1" 2]
  by (simp add: playingLong_eq pauseAudio_def loadAudio_def updateProgress_def sendCmd_def
        clearAllSources_def Let_def)

subsection \<open>The total duration and the timeline\<close>

lemma seekToTime_total [simp]:
  "totalDuration (seekToTime s t now) = totalDuration s"
  "decodedAudioBuffers (seekToTime s t now) = decodedAudioBuffers s"
  by (simp_all add: seekToTime_def clearAllSources_def Let_def)

lemma step_total:
  "totalDuration (step s e) =
     (case e of
        Decoded b now \<Rightarrow>
          (if playbackState s = Paused \<or> playbackState s = Stopped then totalDuration s
           else totalDuration s + duration b)
      | Reset \<Rightarrow> 0
      | _ \<Rightarrow> totalDuration s)"
  by (cases e)
     (auto simp: handleServerMessage_def onDecoded_def onended_def handlePlayPause_def
        connectStart_def connectDone_def connectFailed_def loadAudio_def pauseAudio_def
        stopAudio_def updateProgress_def clearAllSources_def handleSeek_def
        handleSeekPointerDown_def onPointerMove_def onPointerUp_def Let_def
        split: option.splits)

lemma step_timeline:
  "timelineDuration (step s e) =
     (case e of
        Decoded b now \<Rightarrow> timelineDuration s + duration b
      | Reset \<Rightarrow> 0
      | _ \<Rightarrow> timelineDuration s)"
  by (cases e)
     (auto simp: timelineDuration_def handleServerMessage_def onDecoded_def onended_def
        handlePlayPause_def
        connectStart_def connectDone_def connectFailed_def loadAudio_def pauseAudio_def
        stopAudio_def updateProgress_def clearAllSources_def handleSeek_def
        handleSeekPointerDown_def onPointerMove_def onPointerUp_def Let_def
        split: option.splits)

lemma step_buffers:
  "decodedAudioBuffers (step s e) =
     (case e of
        Decoded b now \<Rightarrow> decodedAudioBuffers s @ [b]
      | Reset \<Rightarrow> []
      | _ \<Rightarrow> decodedAudioBuffers s)"
  by (cases e)
     (auto simp: handleServerMessage_def onDecoded_def onended_def handlePlayPause_def
        connectStart_def connectDone_def connectFailed_def loadAudio_def pauseAudio_def
        stopAudio_def updateProgress_def clearAllSources_def handleSeek_def
        handleSeekPointerDown_def onPointerMove_def onPointerUp_def Let_def
        split: option.splits)

text \<open>
  Claim C3 as stated fails. In the example session the second chunk's decode completes
  after the user has paused: its buffer is on the timeline, which now holds 2 s, and
  \<open>totalDuration\<close> is still 1 s.
\<close>

theorem total_duration_counterexample:
  "decodedAudioBuffers pausedDecode = [buffer1, buffer2] \<and>
   sum_list (map duration (decodedAudioBuffers pausedDecode)) = 2 \<and>
   totalDuration pausedDecode = 1"
  by (simp add: pausedDecode_def started_eq transport_defs buffer1_def buffer2_def)

lemma run_total_le:
  assumes "\<forall>b now. Decoded b now \<in> set evs \<longrightarrow> 0 \<le> duration b"
    and "totalDuration s \<le> timelineDuration s"
  shows "totalDuration (run s evs) \<le> timelineDuration (run s evs)"
  using assms
proof (induction evs arbitrary: s)
  case Nil
  then show ?case by (simp add: run_def)
next
  case (Cons e evs)
  have nn: "\<forall>b now. e = Decoded b now \<longrightarrow> 0 \<le> duration b"
    using Cons.prems(1) by simp
  have "totalDuration (step s e) \<le> timelineDuration (step s e)"
    using Cons.prems(2) nn step_total [of s e] step_timeline [of s e]
    by (cases e) (auto simp del: step.simps)
  moreover have "\<forall>b now. Decoded b now \<in> set evs \<longrightarrow> 0 \<le> duration b"
    using Cons.prems(1) by simp
  ultimately have "totalDuration (run (step s e) evs) \<le> timelineDuration (run (step s e) evs)"
    using Cons.IH by blast
  then show ?case by (simp add: run_def)
qed

lemma run_total_eq:
  assumes "decodesWhileLive s evs" and "totalDuration s = timelineDuration s"
  shows "totalDuration (run s evs) = timelineDuration (run s evs)"
  using assms
proof (induction evs arbitrary: s)
  case Nil
  then show ?case by (simp add: run_def)
next
  case (Cons e evs)
  have "totalDuration (step s e) = timelineDuration (step s e)"
    using Cons.prems step_total [of s e] step_timeline [of s e]
    by (cases e) (auto simp del: step.simps)
  moreover have "decodesWhileLive (step s e) evs"
    using Cons.prems(1) by simp
  ultimately have "totalDuration (run (step s e) evs) = timelineDuration (run (step s e) evs)"
    using Cons.IH by blast
  then show ?case by (simp add: run_def)
qed

text \<open>
  C3, amended: in every state reached from the initial one (decoded buffers have
  non-negative durations) \<open>totalDuration\<close> is at most the sum of the durations of the
  buffers in \<open>decodedAudioBuffers\<close>, and equals it when every decode so far completed
  while playing or loading; every event other than the reset leaves \<open>totalDuration\<close>
  the same or larger, and the reset sets it to 0.
\<close>

theorem total_duration_invariant:
  assumes "\<forall>b now. Decoded b now \<in> set evs \<longrightarrow> 0 \<le> duration b"
  shows "totalDuration (run initial evs) \<le> timelineDuration (run initial evs) \<and>
         (decodesWhileLive initial evs \<longrightarrow>
            totalDuration (run initial evs) = timelineDuration (run initial evs)) \<and>
         (\<forall>e. e \<noteq> Reset \<and> (\<forall>b now. e = Decoded b now \<longrightarrow> 0 \<le> duration b) \<longrightarrow>
            totalDuration (run initial evs) \<le> totalDuration (step (run initial evs) e)) \<and>
         totalDuration (step (run initial evs) Reset) = 0"
proof -
  have init: "totalDuration initial = timelineDuration initial"
    by (simp add: initial_def timelineDuration_def)
  have le: "totalDuration (run initial evs) \<le> timelineDuration (run initial evs)"
    using run_total_le [OF assms] init by simp
  have eq: "decodesWhileLive initial evs \<longrightarrow>
            totalDuration (run initial evs) = timelineDuration (run initial evs)"
    using run_total_eq init by blast
  have mono: "\<forall>e. e \<noteq> Reset \<and> (\<forall>b now. e = Decoded b now \<longrightarrow> 0 \<le> duration b) \<longrightarrow>
            totalDuration (run initial evs) \<le> totalDuration (step (run initial evs) e)"
  proof (intro allI impI)
    fix e :: event
    assume "e \<noteq> Reset \<and> (\<forall>b now. e = Decoded b now \<longrightarrow> 0 \<le> duration b)"
    then show "totalDuration (run initial evs) \<le> totalDuration (step (run initial evs) e)"
      using step_total [of "run initial evs" e] by (cases e) (auto simp del: step.simps)
  qed
  have reset: "totalDuration (step (run initial evs) Reset) = 0"
    using step_total [of "run initial evs" Reset] by (simp del: step.simps)
  show ?thesis using le eq mono reset by blast
qed

text \<open>
  The amended C3 on the run of the counterexample (bound strict) and on its first four
  events (every decode while loading or playing: equality).
\<close>

theorem total_duration_invariant_witness:
  "0 \<le> duration buffer1 \<and> 0 \<le> duration buffer2 \<and>
   totalDuration (run initial
      [PlayPause 0 1, ConnectDone 0, ServerMessage (Some chunk1), Decoded buffer1 0,
       ServerMessage (Some chunk2), PlayPause (1 / 2) 1, Decoded buffer2 (3 / 4)]) = 1 \<and>
   timelineDuration (run initial
      [PlayPause 0 1, ConnectDone 0, ServerMessage (Some chunk1), Decoded buffer1 0,
       ServerMessage (Some chunk2), PlayPause (1 / 2) 1, Decoded buffer2 (3 / 4)]) = 2 \<and>
   decodesWhileLive initial
      [PlayPause 0 1, ConnectDone 0, ServerMessage (Some chunk1), Decoded buffer1 0] \<and>
   totalDuration (run initial
      [PlayPause 0 1, ConnectDone 0, ServerMessage (Some chunk1), Decoded buffer1 0]) = 1 \<and>
   timelineDuration (run initial
      [PlayPause 0 1, ConnectDone 0, ServerMessage (Some chunk1), Decoded buffer1 0]) = 1"
  using total_duration_invariant
          [of "[PlayPause 0 1, ConnectDone 0, ServerMessage (Some chunk1), Decoded buffer1 0,
                ServerMessage (Some chunk2), PlayPause (1 / 2) 1, Decoded buffer2 (3 / 4)]"]
        total_duration_invariant
          [of "[PlayPause 0 1, ConnectDone 0, ServerMessage (Some chunk1), Decoded buffer1 0]"]
  by (simp add: transport_defs timelineDuration_def buffer1_def buffer2_def)

subsection \<open>The order of the timeline\<close>

lemma run_lists:
  assumes "Reset \<notin> set evs"
  shows "decodedAudioBuffers (run s evs) = decodedAudioBuffers s @ completedDecodes evs \<and>
         receivedAudioChunks (run s evs) = receivedAudioChunks s @ arrivedChunks evs"
  using assms
proof (induction evs arbitrary: s)
  case Nil
  then show ?case by (simp add: run_def)
next
  case (Cons e evs)
  have "decodedAudioBuffers (run (step s e) evs) =
          decodedAudioBuffers (step s e) @ completedDecodes evs \<and>
        receivedAudioChunks (run (step s e) evs) =
          receivedAudioChunks (step s e) @ arrivedChunks evs"
    using Cons by simp
  moreover have "decodedAudioBuffers (step s e) @ completedDecodes evs =
                 decodedAudioBuffers s @ completedDecodes (e # evs)"
    using Cons.prems step_buffers [of s e] by (cases e) (auto simp del: step.simps)
  moreover have "receivedAudioChunks (step s e) @ arrivedChunks evs =
                 receivedAudioChunks s @ arrivedChunks (e # evs)"
    using Cons.prems step_chunks [of s e]
    by (cases e) (auto simp del: step.simps split: option.splits)
  ultimately show ?case by (simp add: run_def)
qed

text \<open>
  Claim C2 as stated fails. Two chunks arrive and the decode of the second completes
  first: the timeline holds the second chunk's buffer before the first's.
\<close>

theorem timeline_order_counterexample:
  "receivedAudioChunks (run started
      [ServerMessage (Some chunk1), ServerMessage (Some chunk2),
       Decoded (decodeAudioData chunk2 48000 2) 0, Decoded (decodeAudioData chunk1 48000 2) 0]) =
     [chunk1, chunk2] \<and>
   decodedAudioBuffers (run started
      [ServerMessage (Some chunk1), ServerMessage (Some chunk2),
       Decoded (decodeAudioData chunk2 48000 2) 0, Decoded (decodeAudioData chunk1 48000 2) 0]) =
     [decodeAudioData chunk2 48000 2, decodeAudioData chunk1 48000 2] \<and>
   [decodeAudioData chunk2 48000 2, decodeAudioData chunk1 48000 2] \<noteq>
     [decodeAudioData chunk1 48000 2, decodeAudioData chunk2 48000 2]"
  by (simp add: started_eq transport_defs decodeAudioData_def chunk1_def chunk2_def)

text \<open>
  C2, amended: in a run without a reset, \<open>decodedAudioBuffers\<close> grows by the buffers
  in the order in which their decodes complete, and \<open>receivedAudioChunks\<close> by the
  chunks in the order in which they arrive. The timeline is in arrival order (it is the
  image of the chunk store under the decoder \<open>dec\<close>) when the decodes complete in
  arrival order.
\<close>

theorem timeline_in_completion_order:
  assumes "Reset \<notin> set evs"
  shows "decodedAudioBuffers (run s evs) = decodedAudioBuffers s @ completedDecodes evs \<and>
         receivedAudioChunks (run s evs) = receivedAudioChunks s @ arrivedChunks evs \<and>
         (decodedAudioBuffers s = map dec (receivedAudioChunks s) \<and>
          completedDecodes evs = map dec (arrivedChunks evs) \<longrightarrow>
            decodedAudioBuffers (run s evs) = map dec (receivedAudioChunks (run s evs)))"
  using run_lists [OF assms, of s] by simp

text \<open>The amended C2 on two chunks whose decodes complete in arrival order.\<close>

theorem timeline_in_completion_order_witness:
  "Reset \<notin> set [ServerMessage (Some chunk1), ServerMessage (Some chunk2),
       Decoded (decodeAudioData chunk1 48000 2) 0, Decoded (decodeAudioData chunk2 48000 2) 0] \<and>
   decodedAudioBuffers started = map (\<lambda>c. decodeAudioData c 48000 2) (receivedAudioChunks started) \<and>
   decodedAudioBuffers (run started
      [ServerMessage (Some chunk1), ServerMessage (Some chunk2),
       Decoded (decodeAudioData chunk1 48000 2) 0, Decoded (decodeAudioData chunk2 48000 2) 0]) =
     map (\<lambda>c. decodeAudioData c 48000 2) [chunk1, chunk2] \<and>
   receivedAudioChunks (run started
      [ServerMessage (Some chunk1), ServerMessage (Some chunk2),
       Decoded (decodeAudioData chunk1 48000 2) 0, Decoded (decodeAudioData chunk2 48000 2) 0]) =
     [chunk1, chunk2]"
  using timeline_in_completion_order
    [of "[ServerMessage (Some chunk1), ServerMessage (Some chunk2),
       Decoded (decodeAudioData chunk1 48000 2) 0, Decoded (decodeAudioData chunk2 48000 2) 0]"
       started "\<lambda>c. decodeAudioData c 48000 2"]
  by (simp add: started_eq transport_defs)

subsection \<open>WAV export\<close>

lemma list_update_Cons_numeral:
  "(x # xs)[numeral k := y] = x # xs[numeral k - 1 := y]"
  by (simp add: numeral_eq_Suc)

lemma replicate_44: "replicate 44 (x::byte) =
  [x,x,x,x, x,x,x,x, x,x,x,x, x,x,x,x, x,x,x,x, x,x,x,x, x,x,x,x, x,x,x,x, x,x,x,x, x,x,x,x, x,x,x,x]"
  by (simp add: eval_nat_numeral)

text \<open>The header that \<open>writeWavHeader\<close> builds for the export, byte by byte.\<close>

lemma writeWavHeader_bytes:
  "writeWavHeader n audioContextSampleRate 2 16 = Inr (wavHeaderBytes n)"
  by (simp add: writeWavHeader_def audioContextSampleRate_def andThen_def setUint8_def
        setUint16_def setUint32_def replicate_44 list_update_Cons_numeral wavHeaderBytes_def
        Let_def)

lemma total_length: "foldl (\<lambda>acc chunk. acc + length chunk) a chunks = a + length (concat chunks)"
  by (induction chunks arbitrary: a) simp_all

text \<open>The copy loop writes the chunks one after the other: the result is their concatenation.\<close>

lemma copyChunks_concat:
  assumes "offset + length (concat chunks) \<le> length data"
  shows "copyChunks chunks data offset =
           Inr (take offset data @ concat chunks @ drop (offset + length (concat chunks)) data)"
  using assms
proof (induction chunks arbitrary: data offset)
  case Nil
  then show ?case by simp
next
  case (Cons c chunks)
  define d where "d = take offset data @ c @ drop (offset + length c) data"
  have fits: "offset + length c \<le> length data"
    using Cons.prems by simp
  have len: "length d = length data"
    using fits by (simp add: d_def)
  have wr: "typedArraySet data c offset = Inr d"
    using fits by (simp add: typedArraySet_def d_def)
  have rest: "copyChunks chunks d (offset + length c) =
          Inr (take (offset + length c) d @ concat chunks @
               drop (offset + length c + length (concat chunks)) d)"
    using Cons.prems len by (intro Cons.IH) simp
  have before: "take (offset + length c) d = take offset data @ c"
    using fits by (simp add: d_def)
  have behind: "drop (offset + length c + length (concat chunks)) d =
              drop (offset + length (concat (c # chunks))) data"
    using fits by (simp add: d_def add.assoc add.commute add.left_commute)
  have "copyChunks (c # chunks) data offset = copyChunks chunks d (offset + length c)"
    by (simp add: wr andThen_def)
  also have "\<dots> = Inr ((take offset data @ c) @ concat chunks @
                 drop (offset + length (concat (c # chunks))) data)"
    unfolding rest before behind ..
  finally show ?case by simp
qed

lemma wavHeaderBytes_length [simp]: "length (wavHeaderBytes n) = 44"
  by (simp add: wavHeaderBytes_def)

lemma handleDownloadWav_bytes:
  assumes "receivedAudioChunks s \<noteq> []"
  shows "handleDownloadWav s =
           Some (Inr (wavHeaderBytes (length (concat (receivedAudioChunks s))) @
                      concat (receivedAudioChunks s)))"
proof -
  let ?chunks = "receivedAudioChunks s"
  let ?n = "length (concat ?chunks)"
  have copy: "copyChunks ?chunks (replicate ?n 0) 0 = Inr (concat ?chunks)"
    using copyChunks_concat [of 0 ?chunks "replicate ?n 0"] by simp
  have head: "typedArraySet (replicate (44 + ?n) 0) (wavHeaderBytes ?n) 0 =
                Inr (wavHeaderBytes ?n @ replicate ?n 0)"
    by (simp add: typedArraySet_def)
  have tail: "typedArraySet (wavHeaderBytes ?n @ replicate ?n 0) (concat ?chunks) 44 =
                Inr (wavHeaderBytes ?n @ concat ?chunks)"
    by (simp add: typedArraySet_def)
  show ?thesis
    using assms
    by (simp add: handleDownloadWav_def total_length Let_def copy andThen_def
          writeWavHeader_bytes head tail)
qed

text \<open>A number below \<open>2^32\<close> is the sum of its four base-256 digits.\<close>

lemma base256_digits:
  fixes a :: nat
  assumes "a = r0 + 256 * q1" and "q1 = r1 + 256 * q2" and "q2 = r2 + 256 * q3"
  shows "r0 + 256 * r1 + 65536 * r2 + 16777216 * q3 = a"
  using assms by simp

lemma le32:
  fixes a :: nat
  shows "a mod 256 + 256 * (a div 256 mod 256) + 65536 * (a div 65536 mod 256) +
         16777216 * (a div 16777216) = a"
proof -
  have q2: "a div 65536 = a div 256 div 256"
    by (simp add: div_mult2_eq [symmetric])
  have q3: "a div 16777216 = a div 65536 div 256"
    by (simp add: div_mult2_eq [symmetric])
  have d0: "a = a mod 256 + 256 * (a div 256)"
    by simp
  have d1: "a div 256 = a div 256 mod 256 + 256 * (a div 65536)"
    unfolding q2 by simp
  have d2: "a div 65536 = a div 65536 mod 256 + 256 * (a div 16777216)"
    unfolding q3 by simp
  show ?thesis
    by (rule base256_digits [OF d0 d1 d2])
qed

lemma top_byte:
  fixes a :: nat
  assumes "a < 2 ^ 32"
  shows "a div 16777216 mod 256 = a div 16777216"
proof -
  have "a div 16777216 < 256"
    using assms by (simp add: less_mult_imp_div_less)
  then show ?thesis by simp
qed

lemma byte_of_nat: "unat (of_nat k :: byte) = k mod 256"
  by (simp add: unat_of_nat)

lemma arrived_messages: "arrivedChunks (map (\<lambda>c. ServerMessage (Some c)) chunks) = chunks"
  by (induction chunks) simp_all

lemma received_chunks: "receivedAudioChunks (received chunks) = chunks"
proof -
  have "Reset \<notin> set (map (\<lambda>c. ServerMessage (Some c)) chunks)"
    by auto
  from run_lists [OF this, of started]
  show ?thesis by (simp add: received_def arrived_messages started_eq)
qed

lemma fourGiB_length: "length (concat (receivedAudioChunks fourGiB)) = 4294967260"
  by (simp add: fourGiB_def received_chunks length_concat sum_list_replicate)

text \<open>
  Claim C7 as stated fails for streams of \<open>2^32 - 36\<close> bytes and more: the size
  fields are 32 bits wide. With \<open>N = 2^32 - 36\<close> the field at offset 4 holds 0, not
  \<open>36 + N\<close>.
\<close>

theorem wav_export_counterexample:
  "length (concat (receivedAudioChunks fourGiB)) = 4294967260 \<and>
   handleDownloadWav fourGiB =
     Some (Inr (wavHeaderBytes 4294967260 @ concat (receivedAudioChunks fourGiB))) \<and>
   getUint32 (wavHeaderBytes 4294967260 @ concat (receivedAudioChunks fourGiB)) 4 = 0 \<and>
   36 + length (concat (receivedAudioChunks fourGiB)) = 4294967296"
proof -
  have ne: "receivedAudioChunks fourGiB \<noteq> []"
    by (simp add: fourGiB_def received_chunks)
  have "getUint32 (wavHeaderBytes 4294967260 @ concat (receivedAudioChunks fourGiB)) 4 = 0"
    by (simp add: getUint32_def wavHeaderBytes_def)
  then show ?thesis
    using handleDownloadWav_bytes [OF ne] by (simp add: fourGiB_length)
qed

text \<open>
  C7, amended: for every chunk store holding \<open>N > 0\<close> bytes with \<open>36 + N < 2^32\<close>,
  the export produces \<open>44 + N\<close> bytes: "RIFF" at offset 0, the little-endian size
  \<open>36 + N\<close> at offset 4, "WAVE", "fmt " and the sub-chunk size 16, the PCM format
  code 1 at offset 20, 2 channels, the sample rate 48000, the byte rate
  \<open>48000 * 2 * 2\<close>, the block align 4, 16 bits per sample, "data", and \<open>N\<close> as a
  little-endian 32-bit integer at offset 40, followed by the chunks' bytes in arrival
  order.
\<close>

theorem wav_export:
  assumes "0 < length (concat (receivedAudioChunks s))"
    and "36 + length (concat (receivedAudioChunks s)) < 2 ^ 32"
  shows "\<exists>wav. handleDownloadWav s = Some (Inr wav) \<and>
           length wav = 44 + length (concat (receivedAudioChunks s)) \<and>
           take 4 wav = asciiBytes ''RIFF'' \<and>
           getUint32 wav 4 = 36 + length (concat (receivedAudioChunks s)) \<and>
           take 4 (drop 8 wav) = asciiBytes ''WAVE'' \<and>
           take 4 (drop 12 wav) = asciiBytes ''fmt '' \<and>
           getUint32 wav 16 = 16 \<and>
           getUint16 wav 20 = 1 \<and>
           getUint16 wav 22 = 2 \<and>
           getUint32 wav 24 = 48000 \<and>
           getUint32 wav 28 = 48000 * 2 * 2 \<and>
           getUint16 wav 32 = 2 * 2 \<and>
           getUint16 wav 34 = 16 \<and>
           take 4 (drop 36 wav) = asciiBytes ''data'' \<and>
           getUint32 wav 40 = length (concat (receivedAudioChunks s)) \<and>
           drop 44 wav = concat (receivedAudioChunks s)"
proof -
  let ?n = "length (concat (receivedAudioChunks s))"
  let ?wav = "wavHeaderBytes ?n @ concat (receivedAudioChunks s)"
  have ne: "receivedAudioChunks s \<noteq> []" using assms(1) by auto
  have n32: "?n < 2 ^ 32" using assms(2) by simp
  have size: "getUint32 ?wav 4 = 36 + ?n"
    using le32 [of "36 + ?n"] assms(2)
    by (simp add: getUint32_def wavHeaderBytes_def byte_of_nat top_byte)
  have data: "getUint32 ?wav 40 = ?n"
    using le32 [of ?n] n32
    by (simp add: getUint32_def wavHeaderBytes_def byte_of_nat top_byte)
  have fixed: "take 4 ?wav = asciiBytes ''RIFF''"
    "take 4 (drop 8 ?wav) = asciiBytes ''WAVE''"
    "take 4 (drop 12 ?wav) = asciiBytes ''fmt ''"
    "take 4 (drop 36 ?wav) = asciiBytes ''data''"
    "getUint32 ?wav 16 = 16" "getUint16 ?wav 20 = 1" "getUint16 ?wav 22 = 2"
    "getUint32 ?wav 24 = 48000" "getUint32 ?wav 28 = 48000 * 2 * 2"
    "getUint16 ?wav 32 = 2 * 2" "getUint16 ?wav 34 = 16"
    by (simp_all add: wavHeaderBytes_def asciiBytes_def getUint32_def getUint16_def)
  have payload: "drop 44 ?wav = concat (receivedAudioChunks s)" "length ?wav = 44 + ?n"
    by simp_all
  show ?thesis
    using handleDownloadWav_bytes [OF ne] size data fixed payload by blast
qed

text \<open>The amended C7 on the specification's scenario: 2000 bytes received in two chunks.\<close>

theorem wav_export_witness:
  "receivedAudioChunks twoThousand = [replicate 1200 1, replicate 800 2] \<and>
   length (concat (receivedAudioChunks twoThousand)) = 2000 \<and>
   (\<exists>wav. handleDownloadWav twoThousand = Some (Inr wav) \<and>
           length wav = 2044 \<and>
           take 4 wav = asciiBytes ''RIFF'' \<and>
           getUint32 wav 4 = 2036 \<and>
           getUint16 wav 20 = 1 \<and>
           getUint16 wav 22 = 2 \<and>
           getUint32 wav 24 = 48000 \<and>
           getUint32 wav 28 = 192000 \<and>
           getUint16 wav 32 = 4 \<and>
           getUint32 wav 40 = 2000 \<and>
           drop 44 wav = replicate 1200 1 @ replicate 800 2)"
  using wav_export [of twoThousand]
  by (simp add: twoThousand_def received_chunks) blast


end
